theory Spec2Isabelle
  imports Complex_Main "HOL-Library.Log_Nat"
begin

section \<open>JavaScript values the crawlers handle\<close>

text \<open>
  Strings are lists of code units (\<^typ>\<open>string\<close>); \<open>length\<close> is JavaScript's
  \<open>.length\<close>. A thrown value is an \<open>exn\<close>; a computation that may throw has the
  type \<open>exn + 'a\<close>, \<open>Inl\<close> being the throw. \<open>bindE\<close> sequences two such
  computations (an \<open>await\<close> or a plain statement sequence) and \<open>try_catch\<close> is
  \<open>try { ... } catch { ... }\<close>.
\<close>

datatype exn = Exn string

definition bindE :: "exn + 'a \<Rightarrow> ('a \<Rightarrow> exn + 'b) \<Rightarrow> exn + 'b" where
  "bindE m f = (case m of Inl e \<Rightarrow> Inl e | Inr x \<Rightarrow> f x)"

definition try_catch :: "exn + 'a \<Rightarrow> (exn \<Rightarrow> exn + 'a) \<Rightarrow> exn + 'a" where
  "try_catch body handler = (case body of Inl e \<Rightarrow> handler e | Inr x \<Rightarrow> Inr x)"

text \<open>Truthiness of an optional string: \<open>undefined\<close>, \<open>null\<close> and \<open>''\<close> are falsy.\<close>

definition truthy :: "string option \<Rightarrow> bool" where
  "truthy v = (case v of None \<Rightarrow> False | Some s \<Rightarrow> s \<noteq> [])"

text \<open>\<open>a || undefined\<close> on an optional string.\<close>

definition or_undefined :: "string option \<Rightarrow> string option" where
  "or_undefined v = (if truthy v then v else None)"

text \<open>
  A JavaScript \<open>Set\<close> of strings keeps its members in insertion order: \<open>Set_add\<close> is
  \<open>add\<close>, \<open>new_Set\<close> is \<open>new Set(iterable)\<close>, and the list itself is what
  \<open>[...set]\<close> and \<open>Array.from(set)\<close> return.
\<close>

definition Set_add :: "'a \<Rightarrow> 'a list \<Rightarrow> 'a list" where
  "Set_add x s = (if x \<in> set s then s else s @ [x])"

definition new_Set :: "'a list \<Rightarrow> 'a list" where
  "new_Set xs = fold Set_add xs []"

text \<open>\<open>arr.slice(0, n)\<close> and \<open>str.substring(a, b)\<close> for \<open>a \<le> b\<close>.\<close>

definition slice0 :: "'a list \<Rightarrow> nat \<Rightarrow> 'a list" where
  "slice0 xs n = take n xs"

definition substring :: "string \<Rightarrow> nat \<Rightarrow> nat \<Rightarrow> string" where
  "substring s a b = take (b - a) (drop a s)"

text \<open>
  \<open>str.indexOf(needle)\<close>: the first position where \<open>needle\<close> starts, \<open>None\<close> for
  JavaScript's \<open>-1\<close>.
\<close>

fun indexOf_from :: "nat \<Rightarrow> string \<Rightarrow> string \<Rightarrow> nat option" where
  "indexOf_from i [] needle = (if needle = [] then Some i else None)"
| "indexOf_from i (c # cs) needle =
     (if take (length needle) (c # cs) = needle then Some i
      else indexOf_from (Suc i) cs needle)"

definition indexOf :: "string \<Rightarrow> string \<Rightarrow> nat option" where
  "indexOf s needle = indexOf_from 0 s needle"

text \<open>
  The white space of \<open>\s\<close> and of \<open>trim()\<close> among the code units below 256:
  tab, line feed, vertical tab, form feed, carriage return, space, no-break space.
\<close>

definition isWhiteSpace :: "char \<Rightarrow> bool" where
  "isWhiteSpace c = (of_char c \<in> {9, 10, 11, 12, 13, 32, 160 :: nat})"

definition trim :: "string \<Rightarrow> string" where
  "trim s = rev (dropWhile isWhiteSpace (rev (dropWhile isWhiteSpace s)))"

text \<open>
  \<open>text.replace(/\s+/g, ' ')\<close>: every maximal run of white space becomes one space.
  The flag says whether the code unit before was white space.
\<close>

fun replace_ws_runs :: "bool \<Rightarrow> string \<Rightarrow> string" where
  "replace_ws_runs in_run [] = []"
| "replace_ws_runs in_run (c # cs) =
     (if isWhiteSpace c
      then (if in_run then replace_ws_runs True cs else CHR '' '' # replace_ws_runs True cs)
      else c # replace_ws_runs False cs)"

text \<open>\<open>/\d/.test(text)\<close>.\<close>

definition test_digit :: "string \<Rightarrow> bool" where
  "test_digit s = (\<exists>c \<in> set s. 48 \<le> (of_char c :: nat) \<and> (of_char c :: nat) \<le> 57)"

text \<open>A value returned by \<open>JSON.parse\<close>. An object lists its properties in the order
  \<open>Object.values\<close> enumerates them.\<close>

datatype json = JNull | JBool bool | JNumber rat | JString string
  | JArray "json list" | JObject "(string \<times> json) list"

text \<open>
  What the program takes from its runtime and libraries: the WHATWG \<open>URL\<close> class
  (\<open>'u\<close> is a URL object), the matches of the program's regular expressions,
  \<open>crypto\<close>'s SHA-256, Readability over JSDOM, \<open>JSON\<close>, and two string methods.
  \<open>URL_new url None\<close> is \<open>new URL(url)\<close>, \<open>URL_new url (Some base)\<close> is
  \<open>new URL(url, base)\<close>; \<open>match_emailRegex text\<close> is
  \<open>text.match(emailRegex) || []\<close> and so for the phone pattern;
  \<open>match_pricePattern text\<close> is \<open>match[0]\<close> of the first match, if any;
  \<open>Readability_parse html url\<close> is the \<open>textContent\<close> of the parsed article
  (\<open>None\<close> when there is no article or no text content);
  \<open>split_whitespace text\<close> is \<open>text.split(/\s+/)\<close>.
\<close>

record 'u runtime =
  URL_new :: "string \<Rightarrow> 'u option \<Rightarrow> exn + 'u"
  URL_set_hash :: "'u \<Rightarrow> string \<Rightarrow> 'u"
  URL_href :: "'u \<Rightarrow> string"
  URL_hostname :: "'u \<Rightarrow> string"
  match_emailRegex :: "string \<Rightarrow> string list"
  match_phoneRegex :: "string \<Rightarrow> string list"
  match_pricePattern :: "string \<Rightarrow> string option"
  createHash_sha256_hex :: "string \<Rightarrow> string"
  Readability_parse :: "string \<Rightarrow> string \<Rightarrow> exn + string option"
  JSON_parse :: "string \<Rightarrow> exn + json"
  JSON_stringify :: "json \<Rightarrow> exn + string"
  toLowerCase :: "string \<Rightarrow> string"
  split_whitespace :: "string \<Rightarrow> string list"

section \<open>Utility functions of the content harvester\<close>

definition truncate_str :: "string \<Rightarrow> nat \<Rightarrow> string" where
  "truncate_str str maxLen = (if length str > maxLen then substring str 0 maxLen else str)"

definition normalizeWhitespace :: "string \<Rightarrow> string" where
  "normalizeWhitespace text = trim (replace_ws_runs False text)"

definition extractDomain :: "'u runtime \<Rightarrow> string \<Rightarrow> exn + string" where
  "extractDomain rt url =
     try_catch (bindE (URL_new rt url None) (\<lambda>u. Inr (URL_hostname rt u)))
               (\<lambda>_. Inr [])"

definition normalizeUrl :: "'u runtime \<Rightarrow> string \<Rightarrow> string \<Rightarrow> exn + string" where
  "normalizeUrl rt url baseUrl =
     try_catch
       (bindE (URL_new rt baseUrl None) (\<lambda>base.
        bindE (URL_new rt url (Some base)) (\<lambda>resolved.
        Inr (URL_href rt (URL_set_hash rt resolved [])))))
       (\<lambda>_. Inr url)"

definition extractEmails :: "'u runtime \<Rightarrow> string \<Rightarrow> string list" where
  "extractEmails rt text = filter (\<lambda>e. length e < 100) (new_Set (match_emailRegex rt text))"

definition extractPhones :: "'u runtime \<Rightarrow> string \<Rightarrow> string list" where
  "extractPhones rt text = slice0 (new_Set (match_phoneRegex rt text)) 20"

definition findPriceLike :: "'u runtime \<Rightarrow> string \<Rightarrow> string option" where
  "findPriceLike rt text =
     (case match_pricePattern rt text of
        Some m \<Rightarrow> Some (truncate_str m 400)
      | None \<Rightarrow> None)"

definition sha256 :: "'u runtime \<Rightarrow> string \<Rightarrow> string" where
  "sha256 rt text = createHash_sha256_hex rt text"


section \<open>Access to a page\<close>

text \<open>
  The static parse tree the fast path reads (cheerio's \<open>$\<close>), as the queries the
  program makes of it. \<open>sel_text sel\<close> is \<open>$(sel).text()\<close>, \<open>sel_each_text sel\<close>
  lists \<open>$(el).text()\<close> over \<open>$(sel).each\<close> (or over the elements of
  \<open>$(sel)\<close> by index), \<open>sel_attr sel name\<close> is \<open>$(sel).attr(name)\<close>,
  \<open>sel_each_attr\<close> and \<open>sel_each_attr2\<close> list one or two attributes of every
  matched element, \<open>sel_length sel\<close> is \<open>$(sel).length\<close>, \<open>sel_html sel\<close> is
  \<open>$(sel).html()\<close>, and \<open>body_text_without sel\<close> is the text of a clone of the
  body from which the elements matching \<open>sel\<close> were removed. Any query may throw.
\<close>

record CheerioAPI =
  root_html :: "exn + string"
  sel_text :: "string \<Rightarrow> exn + string"
  sel_each_text :: "string \<Rightarrow> exn + string list"
  sel_attr :: "string \<Rightarrow> string \<Rightarrow> exn + string option"
  sel_each_attr :: "string \<Rightarrow> string \<Rightarrow> exn + string option list"
  sel_each_attr2 :: "string \<Rightarrow> string \<Rightarrow> string \<Rightarrow> exn + (string option \<times> string option) list"
  sel_length :: "string \<Rightarrow> exn + nat"
  sel_html :: "string \<Rightarrow> exn + string option"
  body_text_without :: "string \<Rightarrow> exn + string"

text \<open>
  The rendered page the fallback reads (Playwright's \<open>page\<close>), observed after the
  consent overlay handling and the wait for the load state, both of which swallow
  every error. \<open>locator_getAttribute sel name\<close> is
  \<open>page.locator(sel).getAttribute(name)\<close>; the \<open>locator_all_\<close> queries read every
  element of \<open>page.locator(sel).all()\<close>. The remaining fields are what the browser
  hands to the closures given to \<open>page.evaluate\<close>: the \<open>innerText\<close> of
  \<open>document.querySelector('main, article, [role="main"]') || document.body\<close>, the
  \<open>innerText\<close> of each \<open>p, div\<close> below that element, the \<open>innerText\<close> of a
  body clone without the elements matching a selector, the number of elements matching a
  selector, the \<open>innerText\<close> of the first \<open>footer\<close> if there is one, and the
  body's \<open>innerHTML\<close>.
\<close>

record Page =
  page_content :: "exn + string"
  page_title :: "exn + string"
  locator_getAttribute :: "string \<Rightarrow> string \<Rightarrow> exn + string option"
  locator_all_textContent :: "string \<Rightarrow> exn + string option list"
  locator_all_getAttribute :: "string \<Rightarrow> string \<Rightarrow> exn + string option list"
  locator_all_getAttribute2 :: "string \<Rightarrow> string \<Rightarrow> string \<Rightarrow> exn + (string option \<times> string option) list"
  main_innerText :: "exn + string"
  main_paragraphs_innerText :: "exn + string list"
  body_innerText_without :: "string \<Rightarrow> exn + string"
  querySelectorAll_length :: "string \<Rightarrow> exn + nat"
  footer_innerText :: "exn + string option"
  body_innerHTML :: "exn + string"

text \<open>The response handed to a request handler: its status and its
  \<open>content-type\<close> header.\<close>

record Response =
  statusCode :: "nat option"
  header_content_type :: "string option"

section \<open>The content document\<close>

datatype render_mode = http | js

record Headings =
  h1 :: "string list"
  h2 :: "string list"
  h3 :: "string list"

record Links =
  internal :: "string list"
  external :: "string list"
  canonicalized :: bool

record Contacts =
  emails :: "string list"
  phones :: "string list"

record DomStats =
  words :: nat
  chars :: nat
  node_count :: nat

text \<open>\<open>ContentDoc\<close>; the two \<open>Record\<close>s are property lists in insertion order.\<close>

record ContentDoc =
  url :: string
  fetched_at :: string
  http_status :: "nat option"
  content_type :: "string option"
  canonical_url :: "string option"
  lang :: "string option"
  title :: "string option"
  meta_description :: "string option"
  og :: "(string \<times> string) list"
  meta :: "(string \<times> string) list"
  main_text :: "string option"
  all_text_excerpt :: "string option"
  headings :: Headings
  text_blocks :: "string list"
  jsonld :: "json list"
  microdata_present :: "bool option"
  schema_types :: "string list"
  links :: Links
  contacts :: "Contacts option"
  evidence :: "string list"
  dom_stats :: DomStats
  html_hash :: string
  render_mode :: render_mode

text \<open>
  \<open>ContentDocSchema.parse\<close>: every field of a \<^typ>\<open>ContentDoc\<close> already has the
  type the schema asks for and the handlers set every field the schema gives a default,
  so validation returns the document.
\<close>

definition ContentDocSchema_parse :: "ContentDoc \<Rightarrow> exn + ContentDoc" where
  "ContentDocSchema_parse doc = Inr doc"

text \<open>The object \<open>extractMetadata\<close> returns.\<close>

record Metadata =
  md_title :: "string option"
  md_meta_description :: "string option"
  md_lang :: "string option"
  md_canonical_url :: "string option"
  md_og :: "(string \<times> string) list"
  md_meta :: "(string \<times> string) list"

text \<open>\<open>Object.assign(doc, metadata)\<close>.\<close>

definition Object_assign :: "ContentDoc \<Rightarrow> Metadata \<Rightarrow> ContentDoc" where
  "Object_assign doc md =
     doc\<lparr>title := md_title md, meta_description := md_meta_description md,
         lang := md_lang md, canonical_url := md_canonical_url md,
         og := md_og md, meta := md_meta md\<rparr>"

text \<open>\<open>obj[key] = value\<close> on a property list.\<close>

fun obj_set :: "string \<Rightarrow> string \<Rightarrow> (string \<times> string) list \<Rightarrow> (string \<times> string) list" where
  "obj_set k v [] = [(k, v)]"
| "obj_set k v (p # ps) = (if fst p = k then (k, v) # ps else p # obj_set k v ps)"

text \<open>A loop whose body may throw.\<close>

fun foldE :: "('a \<Rightarrow> 's \<Rightarrow> exn + 's) \<Rightarrow> 'a list \<Rightarrow> 's \<Rightarrow> exn + 's" where
  "foldE f [] s = Inr s"
| "foldE f (x # xs) s = bindE (f x s) (foldE f xs)"

text \<open>\<open>a || b\<close> on optional strings, \<open>b\<close> evaluated only when \<open>a\<close> is falsy.\<close>

definition or_else :: "string option \<Rightarrow> (exn + string option) \<Rightarrow> exn + string option" where
  "or_else a b = (if truthy a then Inr a else b)"


section \<open>Field extractors\<close>

text \<open>
  Every extractor takes \<open>$\<close> and \<open>page\<close> as the source does: the static path when
  \<open>$\<close> is there, an empty facet when neither is, the rendered path otherwise.
\<close>

definition extractMainTextWithReadability :: "'u runtime \<Rightarrow> string \<Rightarrow> string \<Rightarrow> string option" where
  "extractMainTextWithReadability rt html_text url_text =
     (case Readability_parse rt html_text url_text of
        Inr (Some textContent) \<Rightarrow>
          if textContent \<noteq> [] then Some (normalizeWhitespace textContent) else None
      | Inr None \<Rightarrow> None
      | Inl _ \<Rightarrow> None)"

text \<open>The body of the \<open>each\<close> loops of \<open>extractLargestTextBlocks\<close>.\<close>

definition push_block :: "nat \<Rightarrow> string \<Rightarrow> string list \<Rightarrow> string list" where
  "push_block minLen el_text blocks =
     (let text = normalizeWhitespace el_text
      in if length text > minLen then blocks @ [text] else blocks)"

definition mainSelectors :: "string list" where
  \<open>mainSelectors = [''main'', ''article'', ''[role="main"]'']\<close>

definition extractLargestTextBlocks :: "CheerioAPI \<Rightarrow> nat \<Rightarrow> exn + string list" where
  "extractLargestTextBlocks c maxBlocks =
     bindE (foldE (\<lambda>selector blocks.
              bindE (sel_each_text c selector) (\<lambda>texts.
              Inr (fold (push_block 100) texts blocks)))
            mainSelectors []) (\<lambda>blocks.
     bindE (if blocks = []
            then bindE (sel_each_text c ''p, div'') (\<lambda>texts.
                 Inr (fold (push_block 200) texts blocks))
            else Inr blocks) (\<lambda>blocks.
     Inr (map (\<lambda>b. truncate_str b 2000)
            (slice0 (sort_key (\<lambda>b. - int (length b)) blocks) maxBlocks))))"

definition heading_texts_cheerio :: "string list \<Rightarrow> string list" where
  "heading_texts_cheerio texts = filter (\<lambda>t. t \<noteq> []) (map normalizeWhitespace texts)"

definition heading_texts_playwright :: "string option list \<Rightarrow> string list" where
  "heading_texts_playwright texts =
     map (\<lambda>t. normalizeWhitespace (the t)) (filter truthy texts)"

definition extractHeadings :: "CheerioAPI option \<Rightarrow> Page option \<Rightarrow> exn + Headings" where
  "extractHeadings c page =
     (case c of
        Some c \<Rightarrow>
          bindE (sel_each_text c ''h1'') (\<lambda>t1.
          bindE (sel_each_text c ''h2'') (\<lambda>t2.
          bindE (sel_each_text c ''h3'') (\<lambda>t3.
          Inr \<lparr>h1 = new_Set (heading_texts_cheerio t1),
               h2 = new_Set (heading_texts_cheerio t2),
               h3 = new_Set (heading_texts_cheerio t3)\<rparr>)))
      | None \<Rightarrow>
         (case page of
            None \<Rightarrow> Inr \<lparr>h1 = [], h2 = [], h3 = []\<rparr>
          | Some page \<Rightarrow>
              bindE (locator_all_textContent page ''h1'') (\<lambda>t1.
              bindE (locator_all_textContent page ''h2'') (\<lambda>t2.
              bindE (locator_all_textContent page ''h3'') (\<lambda>t3.
              Inr \<lparr>h1 = new_Set (heading_texts_playwright t1),
                   h2 = new_Set (heading_texts_playwright t2),
                   h3 = new_Set (heading_texts_playwright t3)\<rparr>)))))"

text \<open>
  One script of \<open>extractJsonLd\<close>: parse, serialise, keep the parsed value when the
  serialisation has at most 150000 code units; a throw skips the script.
\<close>

definition push_jsonld :: "'u runtime \<Rightarrow> string \<Rightarrow> json list \<Rightarrow> json list" where
  "push_jsonld rt script_text acc =
     (case bindE (JSON_parse rt script_text) (\<lambda>parsed.
           bindE (JSON_stringify rt parsed) (\<lambda>stringified.
           Inr (if length stringified \<le> 150000 then acc @ [parsed] else acc))) of
        Inr acc' \<Rightarrow> acc'
      | Inl _ \<Rightarrow> acc)"

definition ldjson_selector :: string where
  \<open>ldjson_selector = ''script[type="application/ld+json"]''\<close>

definition extractJsonLd :: "'u runtime \<Rightarrow> CheerioAPI option \<Rightarrow> Page option \<Rightarrow> exn + json list" where
  "extractJsonLd rt c page =
     (case c of
        Some c \<Rightarrow>
          bindE (sel_each_text c ldjson_selector) (\<lambda>texts.
          Inr (fold (push_jsonld rt) texts []))
      | None \<Rightarrow>
         (case page of
            None \<Rightarrow> Inr []
          | Some page \<Rightarrow>
              bindE (locator_all_textContent page ldjson_selector) (\<lambda>texts.
              Inr (fold (\<lambda>t acc. if truthy t then push_jsonld rt (the t) acc else acc)
                     texts []))))"

text \<open>
  \<open>extractSchemaTypes\<close>: \<open>traverse\<close> walks a parsed value and adds to the set
  \<open>types\<close>, which is passed along.
\<close>

fun traverse :: "json \<Rightarrow> string list \<Rightarrow> string list" where
  "traverse (JArray xs) types = fold traverse xs types"
| "traverse (JObject props) types =
     fold (\<lambda>(k, v). traverse v) props
       (case map_of props ''@type'' of
          Some (JString t) \<Rightarrow> if t \<noteq> [] then Set_add t types else types
        | _ \<Rightarrow> types)"
| "traverse _ types = types"

definition extractSchemaTypes :: "json list \<Rightarrow> string list" where
  "extractSchemaTypes jsonld_values = fold traverse jsonld_values []"

text \<open>The body of the anchor loop of \<open>extractLinks\<close>, the same on both paths.\<close>

definition push_link ::
  "'u runtime \<Rightarrow> string \<Rightarrow> string \<Rightarrow> string option
     \<Rightarrow> string list \<times> string list \<Rightarrow> exn + string list \<times> string list" where
  "push_link rt baseUrl baseDomain href acc =
     (if truthy href
      then bindE (normalizeUrl rt (the href) baseUrl) (\<lambda>normalized.
           bindE (extractDomain rt normalized) (\<lambda>domain.
           Inr (if domain = baseDomain then (fst acc @ [normalized], snd acc)
                else if domain \<noteq> [] then (fst acc, snd acc @ [normalized])
                else acc)))
      else Inr acc)"

definition links_result :: "string list \<times> string list \<Rightarrow> Links" where
  "links_result acc =
     \<lparr>internal = slice0 (new_Set (fst acc)) 200,
      external = slice0 (new_Set (snd acc)) 200,
      canonicalized = True\<rparr>"

definition extractLinks ::
  "'u runtime \<Rightarrow> CheerioAPI option \<Rightarrow> Page option \<Rightarrow> string \<Rightarrow> exn + Links" where
  "extractLinks rt c page baseUrl =
     bindE (extractDomain rt baseUrl) (\<lambda>baseDomain.
     case c of
       Some c \<Rightarrow>
         bindE (sel_each_attr c ''a[href]'' ''href'') (\<lambda>hrefs.
         bindE (foldE (push_link rt baseUrl baseDomain) hrefs ([], [])) (\<lambda>acc.
         Inr (links_result acc)))
     | None \<Rightarrow>
        (case page of
           None \<Rightarrow> Inr \<lparr>internal = [], external = [], canonicalized = False\<rparr>
         | Some page \<Rightarrow>
             bindE (locator_all_getAttribute page ''a[href]'' ''href'') (\<lambda>hrefs.
             bindE (foldE (push_link rt baseUrl baseDomain) hrefs ([], [])) (\<lambda>acc.
             Inr (links_result acc)))))"


text \<open>The loop bodies of \<open>extractMetadata\<close>, the same on both paths.\<close>

definition push_og ::
  "string option \<times> string option \<Rightarrow> (string \<times> string) list \<Rightarrow> (string \<times> string) list" where
  "push_og pc acc =
     (if truthy (fst pc) \<and> truthy (snd pc) then obj_set (the (fst pc)) (the (snd pc)) acc
      else acc)"

definition metaKeys :: "string list" where
  "metaKeys = [''keywords'', ''author'', ''viewport'', ''robots'', ''theme-color'',
               ''apple-mobile-web-app-title'']"

definition push_meta ::
  "string option \<times> string option \<Rightarrow> (string \<times> string) list \<Rightarrow> (string \<times> string) list" where
  "push_meta nc acc =
     (if truthy (fst nc) \<and> truthy (snd nc) \<and> the (fst nc) \<in> set metaKeys \<and> length acc < 20
      then obj_set (the (fst nc)) (the (snd nc)) acc
      else acc)"

definition extractMetadata :: "CheerioAPI option \<Rightarrow> Page option \<Rightarrow> exn + Metadata" where
  \<open>extractMetadata c page =
     (case c of
        Some c \<Rightarrow>
          bindE (sel_text c ''title'') (\<lambda>title_text.
          bindE (or_else (Some (trim title_text))
                   (sel_attr c ''meta[property="og:title"]'' ''content'')) (\<lambda>t.
          bindE (sel_attr c ''meta[name="description"]'' ''content'') (\<lambda>d.
          bindE (or_else d (sel_attr c ''meta[property="og:description"]'' ''content'')) (\<lambda>d.
          bindE (sel_attr c ''html'' ''lang'') (\<lambda>l.
          bindE (sel_attr c ''link[rel="canonical"]'' ''href'') (\<lambda>cu.
          bindE (sel_each_attr2 c ''meta[property^="og:"]'' ''property'' ''content'') (\<lambda>ogs.
          bindE (sel_each_attr2 c ''meta[name]'' ''name'' ''content'') (\<lambda>metas.
          Inr \<lparr>md_title = or_undefined t, md_meta_description = or_undefined d,
               md_lang = or_undefined l, md_canonical_url = or_undefined cu,
               md_og = fold push_og ogs [], md_meta = fold push_meta metas []\<rparr>))))))))
      | None \<Rightarrow>
         (case page of
            None \<Rightarrow>
              Inr \<lparr>md_title = None, md_meta_description = None, md_lang = None,
                   md_canonical_url = None, md_og = [], md_meta = []\<rparr>
          | Some page \<Rightarrow>
              bindE (page_title page) (\<lambda>title_text.
              bindE (or_else (Some title_text)
                       (locator_getAttribute page ''meta[property="og:title"]'' ''content'')) (\<lambda>t.
              bindE (locator_getAttribute page ''meta[name="description"]'' ''content'') (\<lambda>d.
              bindE (or_else d
                       (locator_getAttribute page ''meta[property="og:description"]'' ''content'')) (\<lambda>d.
              bindE (locator_getAttribute page ''html'' ''lang'') (\<lambda>l.
              bindE (locator_getAttribute page ''link[rel="canonical"]'' ''href'') (\<lambda>cu.
              bindE (locator_all_getAttribute2 page ''meta[property^="og:"]'' ''property'' ''content'') (\<lambda>ogs.
              bindE (locator_all_getAttribute2 page ''meta[name]'' ''name'' ''content'') (\<lambda>metas.
              Inr \<lparr>md_title = or_undefined t, md_meta_description = or_undefined d,
                   md_lang = or_undefined l, md_canonical_url = or_undefined cu,
                   md_og = fold push_og ogs [], md_meta = fold push_meta metas []\<rparr>))))))))))\<close>

definition extractAllText :: "CheerioAPI option \<Rightarrow> Page option \<Rightarrow> exn + string" where
  "extractAllText c page =
     (case c of
        Some c \<Rightarrow>
          bindE (body_text_without c ''script, style, noscript'') (\<lambda>body_text.
          Inr (truncate_str (normalizeWhitespace body_text) 15000))
      | None \<Rightarrow>
         (case page of
            None \<Rightarrow> Inr []
          | Some page \<Rightarrow>
              bindE (body_innerText_without page ''script, style, noscript'') (\<lambda>body_text.
              Inr (truncate_str (normalizeWhitespace body_text) 15000))))"

text \<open>
  The keyword loop of \<open>extractEvidence\<close>: the first keyword, in list order, that
  occurs in the lower-cased text gives one snippet, and the loop stops.
\<close>

definition evidence_keywords :: "string list" where
  "evidence_keywords = [''terms'', ''policy'', ''privacy'', ''cookie'', ''villkor'', ''integritet'']"

fun keyword_snippet :: "string \<Rightarrow> string \<Rightarrow> string list \<Rightarrow> string list" where
  "keyword_snippet allText lowerText [] = []"
| "keyword_snippet allText lowerText (keyword # rest) =
     (case indexOf lowerText keyword of
        Some i \<Rightarrow>
          [truncate_str (normalizeWhitespace (substring allText (i - 50) (i + 200))) 400]
      | None \<Rightarrow> keyword_snippet allText lowerText rest)"

definition extractEvidence :: "'u runtime \<Rightarrow> string \<Rightarrow> string \<Rightarrow> string list" where
  "extractEvidence rt mainText allText =
     (let price = findPriceLike rt allText;
          e1 = (if truthy price then [the price] else []);
          e2 = (if mainText \<noteq> [] then e1 @ [truncate_str mainText 400] else e1);
          e3 = e2 @ keyword_snippet allText (toLowerCase rt allText) evidence_keywords
      in slice0 e3 5)"

definition count_words :: "'u runtime \<Rightarrow> string \<Rightarrow> nat" where
  "count_words rt body_text = length (filter (\<lambda>w. length w > 0) (split_whitespace rt body_text))"

definition calculateDomStats :: "'u runtime \<Rightarrow> CheerioAPI option \<Rightarrow> Page option \<Rightarrow> exn + DomStats" where
  "calculateDomStats rt c page =
     (case c of
        Some c \<Rightarrow>
          bindE (body_text_without c ''script, style, noscript'') (\<lambda>body_text.
          bindE (sel_length c ''*'') (\<lambda>n.
          Inr \<lparr>words = count_words rt body_text, chars = length body_text, node_count = n\<rparr>))
      | None \<Rightarrow>
         (case page of
            None \<Rightarrow> Inr \<lparr>words = 0, chars = 0, node_count = 0\<rparr>
          | Some page \<Rightarrow>
              bindE (body_innerText_without page ''script, style, noscript'') (\<lambda>body_text.
              bindE (querySelectorAll_length page ''*'') (\<lambda>n.
              Inr \<lparr>words = count_words rt body_text, chars = length body_text,
                   node_count = n\<rparr>))))"


section \<open>The request queue and the crawl engine\<close>

text \<open>
  A request carries its URL, its unique key and the \<open>needsJs\<close> entry of its user
  data (\<open>None\<close> when the entry is absent).
\<close>

record Request =
  req_url :: string
  uniqueKey :: string
  needsJs :: "bool option"

text \<open>
  The queue is the library's: \<open>addRequest\<close> ignores a request whose unique key the
  queue has seen before, and a crawler takes the pending requests in the order they were
  added. \<open>known_keys\<close> are the keys of all requests ever added.
\<close>

record RequestQueue =
  pending :: "Request list"
  known_keys :: "string list"

definition addRequest :: "Request \<Rightarrow> RequestQueue \<Rightarrow> RequestQueue" where
  "addRequest r q =
     (if uniqueKey r \<in> set (known_keys q) then q
      else q\<lparr>pending := pending q @ [r], known_keys := known_keys q @ [uniqueKey r]\<rparr>)"

text \<open>
  One attempt of the browser crawler at a request. Either the navigation fails and the
  handler is not called, or the handler is called with the page, the response and the
  clock reading \<open>new Date().toISOString()\<close> returns there; the flag says that the
  handler had not returned when \<open>requestHandlerTimeoutSecs\<close> were over. The page is the
  page as the handler of that attempt sees it.
\<close>

datatype attempt =
    Navigation_failed
  | Handler_called Page "Response option" string bool

text \<open>
  What a run meets outside the program: the unique key the library computes for a
  request added with a URL only, the static fetch of a request (\<open>None\<close> when the
  request fails before its handler is called), the outcomes of the successive attempts
  of the browser crawler at a request, and the clock reading
  \<open>new Date().toISOString()\<close> returns in the static handler of a request.
\<close>

record world =
  computeUniqueKey :: "string \<Rightarrow> string"
  http_fetch :: "Request \<Rightarrow> (CheerioAPI \<times> Response option) option"
  browser_attempts :: "Request \<Rightarrow> attempt list"
  Date_toISOString :: "Request \<Rightarrow> string"

text \<open>\<open>requestQueue.addRequest({ url })\<close> and
  \<open>requestQueue.addRequest({ url, uniqueKey: `${url}#js-fallback`, userData: { needsJs: true } })\<close>.\<close>

definition seed_request :: "world \<Rightarrow> string \<Rightarrow> Request" where
  "seed_request w u = \<lparr>req_url = u, uniqueKey = computeUniqueKey w u, needsJs = None\<rparr>"

definition fallback_request :: "string \<Rightarrow> Request" where
  "fallback_request u = \<lparr>req_url = u, uniqueKey = u @ ''#js-fallback'', needsJs = Some True\<rparr>"

text \<open>What the handlers write to the console, one constructor for each call.\<close>

datatype log_entry =
    HTTP_Harvested string
  | HTTP_Error string exn
  | JS_Harvested string
  | JS_Error string exn
  | Cheerio_Extracted string "string option" "string option" "string option"
  | Cheerio_Missing string
  | Cheerio_Error string exn
  | Playwright_Extracted string
  | Playwright_Error string exn
  | Stats_mismatch nat nat

section \<open>ContentHarvester\<close>

record ContentHarvester =
  requestQueue :: RequestQueue
  dataset :: "ContentDoc list"
  fallbackUrls :: "string list"
  console :: "log_entry list"

definition or_empty :: "string option \<Rightarrow> string" where
  "or_empty v = (case v of Some s \<Rightarrow> s | None \<Rightarrow> [])"

definition response_status :: "Response option \<Rightarrow> nat option" where
  "response_status response = (case response of None \<Rightarrow> None | Some r \<Rightarrow> statusCode r)"

definition response_content_type :: "Response option \<Rightarrow> string option" where
  "response_content_type response =
     (case response of None \<Rightarrow> None | Some r \<Rightarrow> header_content_type r)"

text \<open>The object literal both handlers start from.\<close>

definition initial_doc :: "string \<Rightarrow> string \<Rightarrow> Response option \<Rightarrow> render_mode \<Rightarrow> ContentDoc" where
  "initial_doc u now response mode =
     \<lparr>url = u, fetched_at = now, http_status = response_status response,
      content_type = response_content_type response,
      canonical_url = None, lang = None, title = None, meta_description = None,
      og = [], meta = [], main_text = None, all_text_excerpt = None,
      headings = \<lparr>h1 = [], h2 = [], h3 = []\<rparr>, text_blocks = [], jsonld = [],
      microdata_present = None, schema_types = [],
      links = \<lparr>internal = [], external = [], canonicalized = False\<rparr>,
      contacts = None, evidence = [],
      dom_stats = \<lparr>words = 0, chars = 0, node_count = 0\<rparr>,
      html_hash = [], render_mode = mode\<rparr>"

definition set_contacts :: "'u runtime \<Rightarrow> string \<Rightarrow> ContentDoc \<Rightarrow> ContentDoc" where
  "set_contacts rt contact_text doc =
     (let es = extractEmails rt contact_text; ps = extractPhones rt contact_text
      in if length es > 0 \<or> length ps > 0
         then doc\<lparr>contacts := Some \<lparr>emails = es, phones = ps\<rparr>\<rparr>
         else doc)"

text \<open>
  The fast path: the part of the \<open>try\<close> block of the static handler that builds the
  document, up to the fingerprint.
\<close>

definition main_text_static ::
  "'u runtime \<Rightarrow> CheerioAPI \<Rightarrow> string \<Rightarrow> string \<Rightarrow> ContentDoc \<Rightarrow> exn + ContentDoc" where
  "main_text_static rt c html_text u doc =
     (let mainTextReadability = extractMainTextWithReadability rt html_text u
      in if truthy mainTextReadability
         then Inr (doc\<lparr>main_text := Some (truncate_str (the mainTextReadability) 10000)\<rparr>)
         else bindE (extractLargestTextBlocks c 5) (\<lambda>blocks.
              Inr (if length blocks > 0
                   then doc\<lparr>main_text := Some (truncate_str (hd blocks) 10000),
                            text_blocks := drop 1 blocks\<rparr>
                   else doc)))"

definition build_static_doc ::
  "'u runtime \<Rightarrow> string \<Rightarrow> string \<Rightarrow> string \<Rightarrow> CheerioAPI \<Rightarrow> Response option \<Rightarrow> exn + ContentDoc" where
  "build_static_doc rt now u html_text c response =
     bindE (extractMetadata (Some c) None) (\<lambda>metadata.
     bindE (main_text_static rt c html_text u
              (Object_assign (initial_doc u now response http) metadata)) (\<lambda>doc.
     bindE (extractAllText (Some c) None) (\<lambda>allText.
     bindE (extractHeadings (Some c) None) (\<lambda>hs.
     bindE (extractJsonLd rt (Some c) None) (\<lambda>parsed.
     bindE (extractLinks rt (Some c) None u) (\<lambda>ls.
     bindE (sel_text c ''footer'') (\<lambda>footer.
     bindE (calculateDomStats rt (Some c) None) (\<lambda>stats.
     bindE (sel_html c ''body'') (\<lambda>bodyHtml.
     Inr ((set_contacts rt (footer @ '' '' @ or_empty (main_text doc))
            (doc\<lparr>all_text_excerpt := Some allText, headings := hs, jsonld := parsed,
                 schema_types := extractSchemaTypes parsed, links := ls\<rparr>))
          \<lparr>evidence := extractEvidence rt (or_empty (main_text doc)) allText,
           dom_stats := stats,
           html_hash := sha256 rt (or_empty bodyHtml)\<rparr>))))))))))"

text \<open>
  The request handler of the \<open>CheerioCrawler\<close>. \<open>$.html()\<close> is read before the
  \<open>try\<close> block; everything else is inside it, and the \<open>catch\<close> logs the error and
  pushes the URL to the fallback list.
\<close>

definition harvester_cheerio_handler ::
  "'u runtime \<Rightarrow> string \<Rightarrow> Request \<Rightarrow> CheerioAPI \<Rightarrow> Response option
     \<Rightarrow> ContentHarvester \<Rightarrow> exn + ContentHarvester" where
  "harvester_cheerio_handler rt now request c response st =
     (let u = req_url request in
      bindE (root_html c) (\<lambda>html_text.
      try_catch
        (bindE (build_static_doc rt now u html_text c response) (\<lambda>doc.
         if \<not> truthy (title doc) \<or> \<not> truthy (main_text doc)
         then Inr (st\<lparr>fallbackUrls := fallbackUrls st @ [u]\<rparr>)
         else bindE (ContentDocSchema_parse doc) (\<lambda>validated.
              Inr (st\<lparr>dataset := dataset st @ [validated],
                       console := console st @ [HTTP_Harvested u]\<rparr>))))
        (\<lambda>error.
           Inr (st\<lparr>console := console st @ [HTTP_Error u error],
                    fallbackUrls := fallbackUrls st @ [u]\<rparr>))))"


text \<open>
  The fallback path. The closure that extracts the text blocks in the browser filters
  the paragraphs longer than 200, sorts them by decreasing length, keeps five and cuts
  each at 2000.
\<close>

definition rendered_blocks :: "string list \<Rightarrow> string list" where
  "rendered_blocks paragraphs =
     map (\<lambda>t. substring t 0 2000)
       (slice0 (sort_key (\<lambda>t. - int (length t)) (filter (\<lambda>t. length t > 200) paragraphs)) 5)"

definition main_text_rendered ::
  "'u runtime \<Rightarrow> Page \<Rightarrow> string \<Rightarrow> string \<Rightarrow> ContentDoc \<Rightarrow> exn + ContentDoc" where
  "main_text_rendered rt page html_text u doc =
     (let mainTextReadability = extractMainTextWithReadability rt html_text u
      in if truthy mainTextReadability
         then Inr (doc\<lparr>main_text := Some (truncate_str (the mainTextReadability) 10000)\<rparr>)
         else bindE (main_innerText page) (\<lambda>mainText.
              if mainText \<noteq> []
              then bindE (main_paragraphs_innerText page) (\<lambda>paragraphs.
                   Inr (doc\<lparr>main_text := Some (truncate_str (normalizeWhitespace mainText) 10000),
                            text_blocks := rendered_blocks paragraphs\<rparr>))
              else Inr doc))"

definition build_rendered_doc ::
  "'u runtime \<Rightarrow> string \<Rightarrow> string \<Rightarrow> Page \<Rightarrow> Response option \<Rightarrow> exn + ContentDoc" where
  "build_rendered_doc rt now u page response =
     bindE (page_content page) (\<lambda>html_text.
     bindE (extractMetadata None (Some page)) (\<lambda>metadata.
     bindE (main_text_rendered rt page html_text u
              (Object_assign (initial_doc u now response js) metadata)) (\<lambda>doc.
     bindE (extractAllText None (Some page)) (\<lambda>allText.
     bindE (extractHeadings None (Some page)) (\<lambda>hs.
     bindE (extractJsonLd rt None (Some page)) (\<lambda>parsed.
     bindE (extractLinks rt None (Some page) u) (\<lambda>ls.
     bindE (footer_innerText page) (\<lambda>footer.
     bindE (calculateDomStats rt None (Some page)) (\<lambda>stats.
     bindE (body_innerHTML page) (\<lambda>bodyHtml.
     Inr ((set_contacts rt (or_empty footer @ '' '' @ or_empty (main_text doc))
            (doc\<lparr>all_text_excerpt := Some allText, headings := hs, jsonld := parsed,
                 schema_types := extractSchemaTypes parsed, links := ls\<rparr>))
          \<lparr>evidence := extractEvidence rt (or_empty (main_text doc)) allText,
           dom_stats := stats,
           html_hash := sha256 rt bodyHtml\<rparr>)))))))))))"

text \<open>
  The request handler of the \<open>PlaywrightCrawler\<close>: a request without the marker is
  left alone; for a marked one the document is built, validated and pushed, with no look
  at which fields are present; the \<open>catch\<close> logs the error.
\<close>

definition harvester_playwright_handler ::
  "'u runtime \<Rightarrow> string \<Rightarrow> Request \<Rightarrow> Page \<Rightarrow> Response option
     \<Rightarrow> ContentHarvester \<Rightarrow> exn + ContentHarvester" where
  "harvester_playwright_handler rt now request page response st =
     (let u = req_url request in
      if \<not> (needsJs request = Some True) then Inr st
      else
        try_catch
          (bindE (build_rendered_doc rt now u page response) (\<lambda>doc.
           bindE (ContentDocSchema_parse doc) (\<lambda>validated.
           Inr (st\<lparr>dataset := dataset st @ [validated],
                    console := console st @ [JS_Harvested u]\<rparr>))))
          (\<lambda>error. Inr (st\<lparr>console := console st @ [JS_Error u error]\<rparr>)))"

text \<open>
  A crawler's \<open>run()\<close>: the first \<open>maxRequestsPerCrawl\<close> pending requests are
  taken in order, and handlers run one after the other. On the static path a request
  is handled once: one whose fetch fails, or whose handler throws, leaves the state as it
  was.
\<close>

definition handle_static ::
  "(string \<Rightarrow> Request \<Rightarrow> CheerioAPI \<Rightarrow> Response option \<Rightarrow> 's \<Rightarrow> exn + 's)
     \<Rightarrow> world \<Rightarrow> Request \<Rightarrow> 's \<Rightarrow> 's" where
  "handle_static handler w r st =
     (case http_fetch w r of
        None \<Rightarrow> st
      | Some (c, response) \<Rightarrow>
         (case handler (Date_toISOString w r) r c response st of
            Inl _ \<Rightarrow> st
          | Inr st' \<Rightarrow> st'))"

text \<open>
  On the browser path the library retries a request whose navigation fails, whose
  handler throws or whose handler does not return in time, until it has been retried
  \<open>maxRequestRetries\<close> times; neither crawler changes the library's default of 3. A
  handler that has run out of time is not stopped: it goes on to its end, on the page as
  it finds it, while the request waits for its next attempt. So every attempt that calls
  the handler runs it in full, on the state the attempts before have left.
\<close>

definition maxRequestRetries :: nat where
  "maxRequestRetries = 3"

fun run_attempts ::
  "(string \<Rightarrow> Request \<Rightarrow> Page \<Rightarrow> Response option \<Rightarrow> 's \<Rightarrow> exn + 's)
     \<Rightarrow> Request \<Rightarrow> attempt list \<Rightarrow> 's \<Rightarrow> 's" where
  "run_attempts handler r [] st = st"
| "run_attempts handler r (Navigation_failed # rest) st = run_attempts handler r rest st"
| "run_attempts handler r (Handler_called page response now late # rest) st =
     (case handler now r page response st of
        Inl _ \<Rightarrow> run_attempts handler r rest st
      | Inr st' \<Rightarrow> if late then run_attempts handler r rest st' else st')"

definition handle_rendered ::
  "(string \<Rightarrow> Request \<Rightarrow> Page \<Rightarrow> Response option \<Rightarrow> 's \<Rightarrow> exn + 's)
     \<Rightarrow> world \<Rightarrow> Request \<Rightarrow> 's \<Rightarrow> 's" where
  "handle_rendered handler w r st =
     run_attempts handler r (take (Suc maxRequestRetries) (browser_attempts w r)) st"

definition take_batch :: "nat \<Rightarrow> RequestQueue \<Rightarrow> Request list \<times> RequestQueue" where
  "take_batch maxRequests q =
     (take maxRequests (pending q), q\<lparr>pending := drop maxRequests (pending q)\<rparr>)"

text \<open>The two concurrency limits go to the library as they are; what they change is the
  order of the handlers, which the one-after-the-other runs above do not follow.\<close>

record ContentHarvesterConfig =
  startUrls :: "string list"
  maxRequestsPerCrawl :: "nat option"
  httpConcurrency :: "nat option"
  jsConcurrency :: "nat option"

definition harvester_maxRequests :: "ContentHarvesterConfig \<Rightarrow> nat" where
  "harvester_maxRequests config =
     (case maxRequestsPerCrawl config of Some n \<Rightarrow> n | None \<Rightarrow> 100)"

definition harvester_initial :: "world \<Rightarrow> ContentHarvesterConfig \<Rightarrow> ContentHarvester" where
  "harvester_initial w config =
     \<lparr>requestQueue = fold (\<lambda>u. addRequest (seed_request w u)) (startUrls config)
                        \<lparr>pending = [], known_keys = []\<rparr>,
      dataset = [], fallbackUrls = [], console = []\<rparr>"

definition harvester_cheerio_run ::
  "'u runtime \<Rightarrow> world \<Rightarrow> ContentHarvesterConfig \<Rightarrow> ContentHarvester \<Rightarrow> ContentHarvester" where
  "harvester_cheerio_run rt w config st =
     (let (batch, q) = take_batch (harvester_maxRequests config) (requestQueue st)
      in fold (handle_static (harvester_cheerio_handler rt) w) batch (st\<lparr>requestQueue := q\<rparr>))"

definition harvester_playwright_run ::
  "'u runtime \<Rightarrow> world \<Rightarrow> ContentHarvesterConfig \<Rightarrow> ContentHarvester \<Rightarrow> ContentHarvester" where
  "harvester_playwright_run rt w config st =
     (let (batch, q) = take_batch (harvester_maxRequests config) (requestQueue st)
      in fold (handle_rendered (harvester_playwright_handler rt) w) batch (st\<lparr>requestQueue := q\<rparr>))"

text \<open>The state when \<open>await this.cheerioCrawler.run()\<close> returns.\<close>

definition harvester_fast_pass ::
  "'u runtime \<Rightarrow> world \<Rightarrow> ContentHarvesterConfig \<Rightarrow> ContentHarvester" where
  "harvester_fast_pass rt w config = harvester_cheerio_run rt w config (harvester_initial w config)"

text \<open>The re-enqueueing loop of \<open>run()\<close>.\<close>

definition harvester_reenqueue :: "ContentHarvester \<Rightarrow> ContentHarvester" where
  "harvester_reenqueue st =
     st\<lparr>requestQueue :=
          fold (\<lambda>u. addRequest (fallback_request u)) (fallbackUrls st) (requestQueue st)\<rparr>"

definition harvester_run ::
  "'u runtime \<Rightarrow> world \<Rightarrow> ContentHarvesterConfig \<Rightarrow> ContentHarvester" where
  "harvester_run rt w config =
     (let st = harvester_fast_pass rt w config;
          st = (if length (fallbackUrls st) > 0 then harvester_reenqueue st else st)
      in if length (fallbackUrls st) > 0 then harvester_playwright_run rt w config st else st)"


section \<open>Numbers\<close>

text \<open>
  A JavaScript number is an IEEE 754 binary64 value; the finite ones are rationals.
  \<open>to_binary64 x\<close> is the binary64 value nearest to \<open>x\<close>, ties to the even
  significand, for \<open>x\<close> below the overflow threshold: with \<open>2 ^ e \<le> \<bar>x\<bar> < 2 ^ (e + 1)\<close>
  the spacing of the values around \<open>x\<close> is \<open>2 ^ (e - 52)\<close>, and \<open>2 ^ - 1074\<close> in
  the subnormal range; \<open>ilog2 x\<close> is that \<open>e\<close>, found from the bit lengths of
  the integer parts of \<open>x\<close> and \<open>1 / x\<close>. \<open>/\<close> and \<open>*\<close> round the exact result this way, and
  \<open>Math.round\<close> is \<open>\<lfloor>x + 1/2\<rfloor>\<close>. The counters of a run are far below
  \<open>2 ^ 53\<close> and are kept as natural numbers.
\<close>

definition ilog2 :: "rat \<Rightarrow> int" where
  "ilog2 x = (let k = bitlen \<lfloor>x\<rfloor> - bitlen \<lfloor>1 / x\<rfloor>
              in if 2 powi (k + 1) \<le> x then k + 1 else if 2 powi k \<le> x then k else k - 1)"

definition round_half_even :: "rat \<Rightarrow> int" where
  "round_half_even x =
     (let f = \<lfloor>x\<rfloor>; d = x - of_int f
      in if d < 1 / 2 then f else if d > 1 / 2 then f + 1 else if even f then f else f + 1)"

definition to_binary64 :: "rat \<Rightarrow> rat" where
  "to_binary64 x =
     (if x = 0 then 0
      else let e = max (ilog2 \<bar>x\<bar>) (- 1022); q = 2 powi (e - 52)
           in of_int (round_half_even (x / q)) * q)"

definition number_div :: "rat \<Rightarrow> rat \<Rightarrow> rat" where
  "number_div a b = to_binary64 (a / b)"

definition number_mul :: "rat \<Rightarrow> rat \<Rightarrow> rat" where
  "number_mul a b = to_binary64 (a * b)"

definition Math_round :: "rat \<Rightarrow> int" where
  "Math_round x = \<lfloor>x + 1 / 2\<rfloor>"

section \<open>HybridCrawler\<close>

record HybridCrawlerStats =
  seen :: nat
  http_ok :: nat
  fallback_enqueued :: nat
  js_processed :: nat
  js_rate :: int

record ProbeData =
  probe_url :: string
  probe_timestampISO :: string
  serviceTitle :: "string option"
  provider :: "string option"
  priceText :: "string option"

text \<open>The properties of \<open>CrawledData\<close> the fallback handler sets; the record it
  pushes has no other property.\<close>

record CrawledData =
  data_url :: string
  data_timestampISO :: "string option"
  data_serviceTitle :: "string option"
  data_provider :: "string option"
  data_priceText :: "string option"

definition serviceTitle_selector :: string where
  \<open>serviceTitle_selector = ''h1, h2:first-of-type, [class*="service-title" i], [class*="service-name" i], [id*="service-title" i], [class*="title" i], [itemprop="name"]''\<close>

definition provider_selector :: string where
  \<open>provider_selector = ''[class*="provider" i], [id*="provider" i], [class*="company" i], [class*="business" i], [itemprop="provider"], [itemprop="brand"], footer [class*="company" i]''\<close>

definition priceText_selector :: string where
  \<open>priceText_selector = ''[class*="price" i], [id*="price" i], [data-price], [itemprop="price"], .price, [class*="pris" i]''\<close>

text \<open>
  The element loops of \<open>ParseUtils\<close>: the first element whose trimmed text passes
  the test gives the result. On the rendered path a \<open>null\<close> text content is skipped,
  and a throw of the locator gives \<open>undefined\<close>.
\<close>

definition first_text :: "(string \<Rightarrow> bool) \<Rightarrow> string list \<Rightarrow> string option" where
  "first_text ok texts = find ok (map trim texts)"

definition probe_field ::
  "string \<Rightarrow> (string \<Rightarrow> bool) \<Rightarrow> CheerioAPI option \<Rightarrow> Page option \<Rightarrow> exn + string option" where
  "probe_field selector ok c page =
     (case c of
        Some c \<Rightarrow> bindE (sel_each_text c selector) (\<lambda>texts. Inr (first_text ok texts))
      | None \<Rightarrow>
         (case page of
            None \<Rightarrow> Inr None
          | Some page \<Rightarrow>
              try_catch
                (bindE (locator_all_textContent page selector) (\<lambda>texts.
                 Inr (first_text ok (map the (filter truthy texts)))))
                (\<lambda>_. Inr None)))"

definition extractServiceTitle :: "CheerioAPI option \<Rightarrow> Page option \<Rightarrow> exn + string option" where
  "extractServiceTitle c page =
     probe_field serviceTitle_selector (\<lambda>t. t \<noteq> [] \<and> length t > 0 \<and> length t < 200) c page"

definition extractProvider :: "CheerioAPI option \<Rightarrow> Page option \<Rightarrow> exn + string option" where
  "extractProvider c page =
     probe_field provider_selector (\<lambda>t. t \<noteq> [] \<and> length t > 0 \<and> length t < 200) c page"

definition extractPriceText :: "CheerioAPI option \<Rightarrow> Page option \<Rightarrow> exn + string option" where
  "extractPriceText c page =
     probe_field priceText_selector (\<lambda>t. t \<noteq> [] \<and> length t > 0 \<and> test_digit t) c page"

definition hasCriticalFields :: "ProbeData \<Rightarrow> bool" where
  "hasCriticalFields d = (truthy (serviceTitle d) \<and> truthy (provider d) \<and> truthy (priceText d))"

record HybridCrawler =
  hybrid_requestQueue :: RequestQueue
  stats :: HybridCrawlerStats
  hybrid_fallbackUrls :: "string list"
  default_Dataset :: "CrawledData list"
  hybrid_console :: "log_entry list"

text \<open>
  The request handler of the fast pass: \<open>seen\<close> is incremented before the \<open>try\<close>
  block, one of \<open>http_ok\<close> and \<open>fallback_enqueued\<close> inside it, and the \<open>catch\<close>
  logs the error. The fallback list takes a URL only while it holds fewer than 10.
\<close>

definition hybrid_cheerio_handler ::
  "string \<Rightarrow> Request \<Rightarrow> CheerioAPI \<Rightarrow> Response option \<Rightarrow> HybridCrawler \<Rightarrow> exn + HybridCrawler" where
  "hybrid_cheerio_handler now request c response st0 =
     (let st = st0\<lparr>stats := (stats st0)\<lparr>seen := seen (stats st0) + 1\<rparr>\<rparr>;
          u = req_url request
      in try_catch
           (bindE (extractServiceTitle (Some c) None) (\<lambda>t.
            bindE (extractProvider (Some c) None) (\<lambda>p.
            bindE (extractPriceText (Some c) None) (\<lambda>pr.
            let probeData = \<lparr>probe_url = u, probe_timestampISO = now,
                             serviceTitle = t, provider = p, priceText = pr\<rparr>
            in if hasCriticalFields probeData
               then Inr (st\<lparr>stats := (stats st)\<lparr>http_ok := http_ok (stats st) + 1\<rparr>,
                            hybrid_console := hybrid_console st @ [Cheerio_Extracted u t p pr]\<rparr>)
               else Inr (st\<lparr>stats := (stats st)\<lparr>fallback_enqueued := fallback_enqueued (stats st) + 1\<rparr>,
                            hybrid_fallbackUrls :=
                              (if length (hybrid_fallbackUrls st) < 10
                               then hybrid_fallbackUrls st @ [u] else hybrid_fallbackUrls st),
                            hybrid_console := hybrid_console st @ [Cheerio_Missing u]\<rparr>)))))
           (\<lambda>error. Inr (st\<lparr>hybrid_console := hybrid_console st @ [Cheerio_Error u error]\<rparr>)))"

text \<open>
  The request handler of the fallback: a request without the marker is left alone; for a
  marked one \<open>js_processed\<close> is incremented, then the three fields are read and the
  record is pushed to the default dataset.
\<close>

definition hybrid_playwright_handler ::
  "string \<Rightarrow> Request \<Rightarrow> Page \<Rightarrow> Response option \<Rightarrow> HybridCrawler \<Rightarrow> exn + HybridCrawler" where
  "hybrid_playwright_handler now request page response st0 =
     (let u = req_url request in
      if \<not> (needsJs request = Some True) then Inr st0
      else
        let st = st0\<lparr>stats := (stats st0)\<lparr>js_processed := js_processed (stats st0) + 1\<rparr>\<rparr>
        in try_catch
             (bindE (extractServiceTitle None (Some page)) (\<lambda>t.
              bindE (extractProvider None (Some page)) (\<lambda>p.
              bindE (extractPriceText None (Some page)) (\<lambda>pr.
              Inr (st\<lparr>hybrid_console := hybrid_console st @ [Playwright_Extracted u],
                       default_Dataset := default_Dataset st @
                         [\<lparr>data_url = u, data_timestampISO = Some now, data_serviceTitle = t,
                           data_provider = p, data_priceText = pr\<rparr>]\<rparr>)))))
             (\<lambda>error. Inr (st\<lparr>hybrid_console := hybrid_console st @ [Playwright_Error u error]\<rparr>)))"

text \<open>\<open>requestHandlerTimeoutSecs\<close> and \<open>maxConcurrency\<close> go to the browser crawler as
  they are; which attempts run out of time is part of the \<^typ>\<open>world\<close>.\<close>

record HybridCrawlerConfig =
  hybrid_startUrls :: "string list"
  hybrid_maxRequestsPerCrawl :: "nat option"
  requestHandlerTimeoutSecs :: "nat option"
  maxConcurrency :: "nat option"

definition hybrid_maxRequests :: "HybridCrawlerConfig \<Rightarrow> nat" where
  "hybrid_maxRequests config =
     (case hybrid_maxRequestsPerCrawl config of Some n \<Rightarrow> n | None \<Rightarrow> 10)"

definition hybrid_initial :: "world \<Rightarrow> HybridCrawlerConfig \<Rightarrow> HybridCrawler" where
  "hybrid_initial w config =
     \<lparr>hybrid_requestQueue = fold (\<lambda>u. addRequest (seed_request w u)) (hybrid_startUrls config)
                               \<lparr>pending = [], known_keys = []\<rparr>,
      stats = \<lparr>seen = 0, http_ok = 0, fallback_enqueued = 0, js_processed = 0, js_rate = 0\<rparr>,
      hybrid_fallbackUrls = [], default_Dataset = [], hybrid_console = []\<rparr>"

definition hybrid_cheerio_run :: "world \<Rightarrow> HybridCrawlerConfig \<Rightarrow> HybridCrawler \<Rightarrow> HybridCrawler" where
  "hybrid_cheerio_run w config st =
     (let (batch, q) = take_batch (hybrid_maxRequests config) (hybrid_requestQueue st)
      in fold (handle_static hybrid_cheerio_handler w) batch (st\<lparr>hybrid_requestQueue := q\<rparr>))"

definition hybrid_playwright_run :: "world \<Rightarrow> HybridCrawlerConfig \<Rightarrow> HybridCrawler \<Rightarrow> HybridCrawler" where
  "hybrid_playwright_run w config st =
     (let (batch, q) = take_batch (hybrid_maxRequests config) (hybrid_requestQueue st)
      in fold (handle_rendered hybrid_playwright_handler w) batch (st\<lparr>hybrid_requestQueue := q\<rparr>))"

text \<open>The state when \<open>await this.cheerioCrawler.run()\<close> returns.\<close>

definition hybrid_fast_pass :: "world \<Rightarrow> HybridCrawlerConfig \<Rightarrow> HybridCrawler" where
  "hybrid_fast_pass w config = hybrid_cheerio_run w config (hybrid_initial w config)"

text \<open>The validation of the counters that follows the fast pass.\<close>

definition validate_stats :: "HybridCrawler \<Rightarrow> HybridCrawler" where
  "validate_stats st =
     (let cheerioTotal = http_ok (stats st) + fallback_enqueued (stats st)
      in if cheerioTotal \<noteq> seen (stats st)
         then st\<lparr>hybrid_console := hybrid_console st @ [Stats_mismatch (seen (stats st)) cheerioTotal]\<rparr>
         else st)"

definition hybrid_reenqueue :: "HybridCrawler \<Rightarrow> HybridCrawler" where
  "hybrid_reenqueue st =
     st\<lparr>hybrid_requestQueue :=
          fold (\<lambda>u. addRequest (fallback_request u)) (hybrid_fallbackUrls st)
            (hybrid_requestQueue st)\<rparr>"

definition compute_js_rate :: "HybridCrawlerStats \<Rightarrow> int" where
  "compute_js_rate s =
     (let denominator = http_ok s + js_processed s
      in if denominator > 0
         then Math_round (number_mul (number_div (of_nat (js_processed s)) (of_nat denominator)) 100)
         else 0)"

definition hybrid_run :: "world \<Rightarrow> HybridCrawlerConfig \<Rightarrow> HybridCrawler" where
  "hybrid_run w config =
     (let st = validate_stats (hybrid_fast_pass w config);
          st = (if length (hybrid_fallbackUrls st) > 0 then hybrid_reenqueue st else st);
          st = hybrid_playwright_run w config st
      in st\<lparr>stats := (stats st)\<lparr>js_rate := compute_js_rate (stats st)\<rparr>\<rparr>)"


section \<open>Notions used to state the properties\<close>

text \<open>
  \<open>normalizeUrl\<close> and \<open>extractDomain\<close> never throw, so a link has a resolved form
  and a host name: \<open>resolved_link\<close> and \<open>link_hostname\<close> read them off the two
  functions.
\<close>

definition resolved_link :: "'u runtime \<Rightarrow> string \<Rightarrow> string \<Rightarrow> string" where
  "resolved_link rt baseUrl href =
     (case normalizeUrl rt href baseUrl of Inr s \<Rightarrow> s | Inl _ \<Rightarrow> href)"

definition link_hostname :: "'u runtime \<Rightarrow> string \<Rightarrow> string" where
  "link_hostname rt u = (case extractDomain rt u of Inr d \<Rightarrow> d | Inl _ \<Rightarrow> [])"

text \<open>The resolved forms of the non-empty \<open>href\<close>s of a page, in document order.\<close>

definition resolved_hrefs :: "'u runtime \<Rightarrow> string \<Rightarrow> string option list \<Rightarrow> string list" where
  "resolved_hrefs rt baseUrl hrefs =
     map (\<lambda>h. resolved_link rt baseUrl (the h)) (filter truthy hrefs)"

text \<open>All values inside a parsed JSON value, the value itself included.\<close>

fun subvalues :: "json \<Rightarrow> json list" where
  "subvalues (JArray xs) = JArray xs # concat (map subvalues xs)"
| "subvalues (JObject props) = JObject props # concat (map (\<lambda>(k, v). subvalues v) props)"
| "subvalues v = [v]"

text \<open>The non-empty strings that are the \<open>@type\<close> property of an object inside one
  of the parsed values.\<close>

definition type_names :: "json list \<Rightarrow> string set" where
  "type_names parsed =
     {t. t \<noteq> [] \<and> (\<exists>j \<in> set parsed. \<exists>props. JObject props \<in> set (subvalues j)
                        \<and> map_of props ''@type'' = Some (JString t))}"

text \<open>The number of requests that carry the marker, the test for an error line of the
  fast pass, and the relation between the counters and those lines.\<close>

definition marked :: "Request list \<Rightarrow> nat" where
  "marked rs = length (filter (\<lambda>r. needsJs r = Some True) rs)"

fun is_Cheerio_Error :: "log_entry \<Rightarrow> bool" where
  "is_Cheerio_Error (Cheerio_Error u e) = True"
| "is_Cheerio_Error _ = False"

definition counter_sum :: "HybridCrawler \<Rightarrow> bool" where
  "counter_sum st =
     (seen (stats st) = http_ok (stats st) + fallback_enqueued (stats st)
                        + length (filter is_Cheerio_Error (hybrid_console st)))"





text \<open>The percentage is a half-integer.\<close>

definition tie :: "nat \<Rightarrow> nat \<Rightarrow> bool" where
  "tie r d = ((2 * d) dvd (200 * r + d))"

section \<open>Sample inputs\<close>

text \<open>
  A URL object of the samples: its serialisation without the fragment, its host name
  and its fragment. \<open>sample_URL_new\<close> gives the results of the \<open>URL\<close> constructor on
  the few inputs the samples use and throws on every other input.
\<close>

datatype sample_url = SampleURL string string "string option"

definition example_com :: sample_url where
  "example_com = SampleURL ''https://example.com/'' ''example.com'' None"

definition sample_URL_new :: "string \<Rightarrow> sample_url option \<Rightarrow> exn + sample_url" where
  "sample_URL_new u base =
     (if u = ''https://example.com/'' then Inr example_com
      else if u = ''https://example.com/about''
      then Inr (SampleURL ''https://example.com/about'' ''example.com'' None)
      else if u = ''https://other.example/x''
      then Inr (SampleURL ''https://other.example/x'' ''other.example'' None)
      else if u = ''mailto:info@example.com''
      then Inr (SampleURL ''mailto:info@example.com'' [] None)
      else if u = ''/about'' \<and> base = Some example_com
      then Inr (SampleURL ''https://example.com/about'' ''example.com'' None)
      else if u = ''/about#team'' \<and> base = Some example_com
      then Inr (SampleURL ''https://example.com/about'' ''example.com'' (Some ''team''))
      else Inl (Exn ''TypeError: Invalid URL''))"

fun sample_set_hash :: "sample_url \<Rightarrow> string \<Rightarrow> sample_url" where
  "sample_set_hash (SampleURL h host f) v = SampleURL h host (if v = [] then None else Some v)"

fun sample_href :: "sample_url \<Rightarrow> string" where
  "sample_href (SampleURL h host f) = (case f of None \<Rightarrow> h | Some x \<Rightarrow> h @ ''#'' @ x)"

fun sample_hostname :: "sample_url \<Rightarrow> string" where
  "sample_hostname (SampleURL h host f) = host"

text \<open>The markup of a page with a title and one paragraph, and the SHA-256 digests, in
  hexadecimal, of the empty string and of the body markup \<open><p>Acme  AB</p>\<close>.\<close>

definition acme_markup :: string where
  "acme_markup = ''<html><head><title>Acme</title></head><body><p>Acme  AB</p></body></html>''"

definition sha256_of_empty :: string where
  "sha256_of_empty = ''e3b0c44298fc1c149afbf4c8996fb92427ae41e4649b934ca495991b7852b855''"

definition sha256_of_acme_body :: string where
  "sha256_of_acme_body = ''c27eb57f0cb107836b79d32b5c735ea23ea89828d93d7cb4205637a11d50ca58''"

definition sample_runtime :: "sample_url runtime" where
  "sample_runtime =
     \<lparr>URL_new = sample_URL_new, URL_set_hash = sample_set_hash, URL_href = sample_href,
      URL_hostname = sample_hostname,
      match_emailRegex =
        (\<lambda>t. if t = ''a@b.se c@d.se a@b.se'' then [''a@b.se'', ''c@d.se'', ''a@b.se''] else []),
      match_phoneRegex = (\<lambda>t. if t = ''a@b.se c@d.se a@b.se'' then [''08-12'', ''08-12''] else []),
      match_pricePattern = (\<lambda>t. None),
      createHash_sha256_hex =
        (\<lambda>t. if t = [] then sha256_of_empty
             else if t = ''<p>Acme  AB</p>'' then sha256_of_acme_body
             else ''sha256('' @ t @ '')''),
      Readability_parse = (\<lambda>h u. if h = acme_markup then Inr (Some ''Acme  AB'') else Inr None),
      JSON_parse = (\<lambda>t. Inl (Exn ''SyntaxError'')),
      JSON_stringify = (\<lambda>j. Inr ''null''),
      toLowerCase = (\<lambda>t. t),
      split_whitespace = (\<lambda>t. if t = ''Acme  AB'' then [''Acme'', ''AB''] else [t])\<rparr>"

text \<open>A static page with the given document markup, title and anchors and nothing
  else; \<open>throwing_static_page\<close> is a page whose element queries throw.\<close>

definition static_page :: "string \<Rightarrow> string \<Rightarrow> string option list \<Rightarrow> CheerioAPI" where
  "static_page markup title_text hrefs =
     \<lparr>root_html = Inr markup,
      sel_text = (\<lambda>s. Inr (if s = ''title'' then title_text else [])),
      sel_each_text = (\<lambda>s. Inr []),
      sel_attr = (\<lambda>s n. Inr None),
      sel_each_attr = (\<lambda>s n. Inr (if s = ''a[href]'' then hrefs else [])),
      sel_each_attr2 = (\<lambda>s n m. Inr []),
      sel_length = (\<lambda>s. Inr 3),
      sel_html = (\<lambda>s. Inr (if s = ''body'' then Some [] else None)),
      body_text_without = (\<lambda>s. Inr [])\<rparr>"

definition throwing_static_page :: CheerioAPI where
  "throwing_static_page =
     (static_page [] [] [])
       \<lparr>sel_text := (\<lambda>s. Inl (Exn ''boom'')), sel_each_text := (\<lambda>s. Inl (Exn ''boom''))\<rparr>"

text \<open>
  A rendered page with no title and nothing in its head and body. Reading an attribute
  through a locator waits for the element: for an element that is not there it throws a
  \<open>TimeoutError\<close> when the wait is over. \<open>described_rendered_page\<close> has a title, a
  description and a canonical link, and an empty body.
\<close>

definition empty_rendered_page :: Page where
  "empty_rendered_page =
     \<lparr>page_content = Inr [],
      page_title = Inr [],
      locator_getAttribute =
        (\<lambda>s n. if s = ''html'' then Inr None else Inl (Exn ''TimeoutError'')),
      locator_all_textContent = (\<lambda>s. Inr []),
      locator_all_getAttribute = (\<lambda>s n. Inr []),
      locator_all_getAttribute2 = (\<lambda>s n m. Inr []),
      main_innerText = Inr [],
      main_paragraphs_innerText = Inr [],
      body_innerText_without = (\<lambda>s. Inr []),
      querySelectorAll_length = (\<lambda>s. Inr 3),
      footer_innerText = Inr None,
      body_innerHTML = Inr []\<rparr>"




text \<open>Anchors with a fragment, an empty \<open>href\<close>, a \<open>mailto:\<close> link, a repeated
  link and a link to another host.\<close>

definition mixed_hrefs :: "string option list" where
  "mixed_hrefs = [Some ''/about#team'', Some [], Some ''mailto:info@example.com'',
                  Some ''/about'', Some ''https://other.example/x'']"

text \<open>A JSON-LD block with nested objects, a repeated type and a type given as an
  array.\<close>

definition organization_jsonld :: "json list" where
  "organization_jsonld =
     [JObject [(''@type'', JString ''Organization''),
               (''member'', JArray [JObject [(''@type'', JString ''Person'')],
                                   JObject [(''@type'', JString ''Organization'')],
                                   JObject [(''@type'', JArray [JString ''Thing''])]])]]"


text \<open>
  A world in which every fetch succeeds, every navigation succeeds at the first attempt
  and every handler returns in time, the unique key of a URL is the URL, and the clock
  stands still; the pages are given by URL.
\<close>

definition sample_world :: "(string \<Rightarrow> CheerioAPI) \<Rightarrow> (string \<Rightarrow> Page) \<Rightarrow> world" where
  "sample_world static rendered =
     \<lparr>computeUniqueKey = (\<lambda>u. u),
      http_fetch = (\<lambda>r. Some (static (req_url r), None)),
      browser_attempts =
        (\<lambda>r. [Handler_called (rendered (req_url r)) None ''2025-01-01T00:00:00.000Z'' False]),
      Date_toISOString = (\<lambda>r. ''2025-01-01T00:00:00.000Z'')\<rparr>"

definition one_url :: HybridCrawlerConfig where
  "one_url = \<lparr>hybrid_startUrls = [''https://example.com/''], hybrid_maxRequestsPerCrawl = None,
               requestHandlerTimeoutSecs = None, maxConcurrency = None\<rparr>"

definition eleven_urls :: HybridCrawlerConfig where
  "eleven_urls =
     \<lparr>hybrid_startUrls = [''u01'', ''u02'', ''u03'', ''u04'', ''u05'', ''u06'', ''u07'', ''u08'',
                          ''u09'', ''u10'', ''u11''],
      hybrid_maxRequestsPerCrawl = Some 30,
      requestHandlerTimeoutSecs = None, maxConcurrency = None\<rparr>"

text \<open>The document the fast path builds from a page with nothing on it, fetched at
  \<open>https://example.com/\<close>, the document the fallback builds from
  \<open>described_rendered_page\<close>, and a harvester configuration with that one start URL.\<close>

definition empty_doc :: "render_mode \<Rightarrow> ContentDoc" where
  "empty_doc mode =
     \<lparr>url = ''https://example.com/'', fetched_at = ''2025-01-01T00:00:00.000Z'',
      http_status = None, content_type = None, canonical_url = None, lang = None,
      title = None, meta_description = None, og = [], meta = [],
      main_text = None, all_text_excerpt = Some [],
      headings = \<lparr>h1 = [], h2 = [], h3 = []\<rparr>, text_blocks = [], jsonld = [],
      microdata_present = None, schema_types = [],
      links = \<lparr>internal = [], external = [], canonicalized = True\<rparr>,
      contacts = None, evidence = [],
      dom_stats = \<lparr>words = 0, chars = 0, node_count = 3\<rparr>,
      html_hash = sha256_of_empty, render_mode = mode\<rparr>"


definition one_start_url :: ContentHarvesterConfig where
  "one_start_url = \<lparr>startUrls = [''https://example.com/''], maxRequestsPerCrawl = None,
                     httpConcurrency = None, jsConcurrency = None\<rparr>"

text \<open>A static page with a title and one paragraph, and its document.\<close>

definition acme_page :: CheerioAPI where
  "acme_page =
     (static_page acme_markup ''Acme'' [])
       \<lparr>sel_each_text := (\<lambda>s. Inr (if s = ''p, div'' then [''Acme  AB''] else [])),
        sel_length := (\<lambda>s. Inr 5),
        sel_html := (\<lambda>s. Inr (if s = ''body'' then Some ''<p>Acme  AB</p>'' else None)),
        body_text_without := (\<lambda>s. Inr ''Acme  AB'')\<rparr>"

definition acme_doc :: "string \<Rightarrow> ContentDoc" where
  "acme_doc now =
     \<lparr>url = ''https://example.com/'', fetched_at = now,
      http_status = None, content_type = None, canonical_url = None, lang = None,
      title = Some ''Acme'', meta_description = None, og = [], meta = [],
      main_text = Some ''Acme AB'', all_text_excerpt = Some ''Acme AB'',
      headings = \<lparr>h1 = [], h2 = [], h3 = []\<rparr>, text_blocks = [], jsonld = [],
      microdata_present = None, schema_types = [],
      links = \<lparr>internal = [], external = [], canonicalized = True\<rparr>,
      contacts = None, evidence = [''Acme AB''],
      dom_stats = \<lparr>words = 2, chars = 8, node_count = 5\<rparr>,
      html_hash = sha256_of_acme_body, render_mode = http\<rparr>"

text \<open>
  A static page on which the three probes of the hybrid crawler find a text, and a world
  for a run of 23 start URLs: the pages of the first 17 have the three fields, the others
  have nothing; every attempt of the browser crawler calls the handler on a page with
  nothing on it, and every attempt runs out of time but the third at \<open>d6\<close>.
\<close>

definition service_page :: CheerioAPI where
  "service_page = (static_page [] [] [])\<lparr>sel_each_text := (\<lambda>s. Inr [''Acme 100 kr''])\<rparr>"

definition late_attempt :: attempt where
  "late_attempt = Handler_called empty_rendered_page None ''2025-01-01T00:00:00.000Z'' True"

definition slow_world :: world where
  "slow_world =
     (sample_world (\<lambda>u. if take 1 u = ''a'' then service_page else static_page [] [] [])
                   (\<lambda>u. empty_rendered_page))
       \<lparr>browser_attempts :=
          (\<lambda>r. if req_url r = ''d6''
               then [late_attempt, late_attempt,
                     Handler_called empty_rendered_page None ''2025-01-01T00:00:00.000Z'' False]
               else [late_attempt, late_attempt, late_attempt, late_attempt, late_attempt])\<rparr>"

definition accepted_urls :: "string list" where
  "accepted_urls = [''a01'', ''a02'', ''a03'', ''a04'', ''a05'', ''a06'', ''a07'', ''a08'', ''a09'',
                    ''a10'', ''a11'', ''a12'', ''a13'', ''a14'', ''a15'', ''a16'', ''a17'']"

definition deferred_urls :: "string list" where
  "deferred_urls = [''d1'', ''d2'', ''d3'', ''d4'', ''d5'', ''d6'']"

definition twenty_three_urls :: HybridCrawlerConfig where
  "twenty_three_urls =
     \<lparr>hybrid_startUrls = accepted_urls @ deferred_urls,
      hybrid_maxRequestsPerCrawl = Some 30,
      requestHandlerTimeoutSecs = None, maxConcurrency = None\<rparr>"



section \<open>Basic facts\<close>

lemma bindE_Inr [simp]: "bindE (Inr x) f = f x"
  by (simp add: bindE_def)

lemma bindE_Inl [simp]: "bindE (Inl e) f = Inl e"
  by (simp add: bindE_def)

lemma bindE_Inr_iff: "bindE m f = Inr y \<longleftrightarrow> (\<exists>x. m = Inr x \<and> f x = Inr y)"
  by (cases m) simp_all

lemma Set_add_distinct: "distinct s \<Longrightarrow> distinct (Set_add x s)"
  by (simp add: Set_add_def)

lemma set_Set_add: "set (Set_add x s) = insert x (set s)"
  by (auto simp: Set_add_def)

lemma fold_Set_add_distinct: "distinct acc \<Longrightarrow> distinct (fold Set_add xs acc)"
  by (induction xs arbitrary: acc) (simp_all add: Set_add_distinct)

lemma set_fold_Set_add: "set (fold Set_add xs acc) = set acc \<union> set xs"
  by (induction xs arbitrary: acc) (auto simp: set_Set_add)

lemma distinct_new_Set: "distinct (new_Set xs)"
  by (simp add: new_Set_def fold_Set_add_distinct)

lemma set_new_Set: "set (new_Set xs) = set xs"
  by (simp add: new_Set_def set_fold_Set_add)

lemma normalizeUrl_total: "normalizeUrl rt href baseUrl = Inr (resolved_link rt baseUrl href)"
  by (simp add: resolved_link_def normalizeUrl_def try_catch_def bindE_def split: sum.splits)

lemma extractDomain_total: "extractDomain rt u = Inr (link_hostname rt u)"
  by (simp add: link_hostname_def extractDomain_def try_catch_def bindE_def split: sum.splits)

section \<open>Contacts\<close>

text \<open>
  C9: for every text, \<open>extractEmails\<close> returns a list without duplicates whose entries
  have at most 99 code units, and \<open>extractPhones\<close> returns a list without duplicates
  of at most 20 entries; when a handler stores contacts for the text it was given (the
  footer text, a space, the main text), they are these two lists.
\<close>

theorem contacts_deduplicated_and_capped:
  "distinct (extractEmails rt text)
   \<and> (\<forall>e \<in> set (extractEmails rt text). length e \<le> 99)
   \<and> distinct (extractPhones rt text)
   \<and> length (extractPhones rt text) \<le> 20
   \<and> (\<forall>cs. contacts (set_contacts rt text (doc\<lparr>contacts := None\<rparr>)) = Some cs \<longrightarrow>
          emails cs = extractEmails rt text \<and> phones cs = extractPhones rt text)"
  by (auto simp: extractEmails_def extractPhones_def slice0_def distinct_new_Set
                 set_contacts_def Let_def)

theorem contacts_deduplicated_and_capped_witness:
  "extractEmails sample_runtime ''a@b.se c@d.se a@b.se'' = [''a@b.se'', ''c@d.se'']
   \<and> extractPhones sample_runtime ''a@b.se c@d.se a@b.se'' = [''08-12'']
   \<and> contacts (set_contacts sample_runtime ''a@b.se c@d.se a@b.se''
         ((initial_doc [] [] None http)\<lparr>contacts := None\<rparr>))
       = Some \<lparr>emails = [''a@b.se'', ''c@d.se''], phones = [''08-12'']\<rparr>"
  using contacts_deduplicated_and_capped
          [of sample_runtime "''a@b.se c@d.se a@b.se''" "initial_doc [] [] None http"]
  by (simp add: extractEmails_def extractPhones_def sample_runtime_def new_Set_def Set_add_def
                slice0_def set_contacts_def Let_def)

section \<open>URL normalisation\<close>

text \<open>
  C10: \<open>normalizeUrl\<close> and \<open>extractDomain\<close> return for every input;
  \<open>normalizeUrl\<close> returns the \<open>href\<close> unchanged when the \<open>href\<close> cannot be parsed
  against the base URL (and when the base URL itself cannot be parsed),
  \<open>extractDomain\<close> returns the empty string for a URL that cannot be parsed, and
  link extraction over a static page returns a result whatever the \<open>href\<close>s are.
\<close>

theorem url_normalization_total:
  "(\<exists>s. normalizeUrl rt href baseUrl = Inr s)
   \<and> (\<forall>b e. URL_new rt baseUrl None = Inr b \<longrightarrow> URL_new rt href (Some b) = Inl e \<longrightarrow>
          normalizeUrl rt href baseUrl = Inr href)
   \<and> (\<forall>e. URL_new rt baseUrl None = Inl e \<longrightarrow> normalizeUrl rt href baseUrl = Inr href)
   \<and> (\<exists>d. extractDomain rt href = Inr d)
   \<and> (\<forall>e. URL_new rt href None = Inl e \<longrightarrow> extractDomain rt href = Inr [])
   \<and> (\<forall>hrefs. sel_each_attr c ''a[href]'' ''href'' = Inr hrefs \<longrightarrow>
          (\<exists>ls. extractLinks rt (Some c) None baseUrl = Inr ls))"
proof -
  have push: "\<exists>acc'. foldE (push_link rt baseUrl bd) hrefs acc = Inr acc'" for bd hrefs acc
  proof (induction hrefs arbitrary: acc)
    case Nil
    show ?case by simp
  next
    case (Cons h hrefs)
    obtain acc1 where "push_link rt baseUrl bd h acc = Inr acc1"
      by (cases "truthy h") (simp_all add: push_link_def normalizeUrl_total extractDomain_total)
    with Cons.IH [of acc1] show ?case by simp
  qed
  have links: "\<exists>ls. extractLinks rt (Some c) None baseUrl = Inr ls"
    if "sel_each_attr c ''a[href]'' ''href'' = Inr hrefs" for hrefs
  proof -
    obtain acc' where
      "foldE (push_link rt baseUrl (link_hostname rt baseUrl)) hrefs ([], []) = Inr acc'"
      using push by blast
    with that show ?thesis
      by (simp add: extractLinks_def extractDomain_total)
  qed
  have n1: "\<forall>b e. URL_new rt baseUrl None = Inr b \<longrightarrow> URL_new rt href (Some b) = Inl e \<longrightarrow>
          normalizeUrl rt href baseUrl = Inr href"
    by (simp add: normalizeUrl_def try_catch_def)
  have n2: "\<forall>e. URL_new rt baseUrl None = Inl e \<longrightarrow> normalizeUrl rt href baseUrl = Inr href"
    by (simp add: normalizeUrl_def try_catch_def)
  have d2: "\<forall>e. URL_new rt href None = Inl e \<longrightarrow> extractDomain rt href = Inr []"
    by (simp add: extractDomain_def try_catch_def)
  show ?thesis
    using links n1 n2 d2 normalizeUrl_total [of rt href baseUrl] extractDomain_total [of rt href]
    by blast
qed

theorem url_normalization_total_witness:
  "URL_new sample_runtime ''https://example.com/'' None = Inr example_com
   \<and> URL_new sample_runtime ''http://[bad'' (Some example_com) = Inl (Exn ''TypeError: Invalid URL'')
   \<and> URL_new sample_runtime ''http://[bad'' None = Inl (Exn ''TypeError: Invalid URL'')
   \<and> normalizeUrl sample_runtime ''http://[bad'' ''https://example.com/'' = Inr ''http://[bad''
   \<and> extractDomain sample_runtime ''http://[bad'' = Inr []
   \<and> (\<exists>ls. extractLinks sample_runtime (Some (static_page [] [] [Some ''http://[bad''])) None
               ''https://example.com/'' = Inr ls)"
proof -
  have b: "URL_new sample_runtime ''https://example.com/'' None = Inr example_com"
    by (simp add: sample_runtime_def sample_URL_new_def)
  have h: "URL_new sample_runtime ''http://[bad'' (Some example_com)
             = Inl (Exn ''TypeError: Invalid URL'')"
    by (simp add: sample_runtime_def sample_URL_new_def)
  have d: "URL_new sample_runtime ''http://[bad'' None = Inl (Exn ''TypeError: Invalid URL'')"
    by (simp add: sample_runtime_def sample_URL_new_def)
  have q: "sel_each_attr (static_page [] [] [Some ''http://[bad'']) ''a[href]'' ''href''
             = Inr [Some ''http://[bad'']"
    by (simp add: static_page_def)
  from url_normalization_total
         [of sample_runtime "''http://[bad''" "''https://example.com/''"
             "static_page [] [] [Some ''http://[bad'']"]
  show ?thesis using b h d q by blast
qed


section \<open>Links\<close>

lemma push_link_value:
  "push_link rt baseUrl bd h acc =
     Inr (if truthy h
          then (let n = resolved_link rt baseUrl (the h); d = link_hostname rt n
                in if d = bd then (fst acc @ [n], snd acc)
                   else if d \<noteq> [] then (fst acc, snd acc @ [n]) else acc)
          else acc)"
  by (simp add: push_link_def normalizeUrl_total extractDomain_total)

lemma foldE_push_link:
  "foldE (push_link rt baseUrl bd) hrefs acc =
     Inr (fst acc @ filter (\<lambda>n. link_hostname rt n = bd) (resolved_hrefs rt baseUrl hrefs),
          snd acc @ filter (\<lambda>n. link_hostname rt n \<noteq> bd \<and> link_hostname rt n \<noteq> [])
                      (resolved_hrefs rt baseUrl hrefs))"
proof (induction hrefs arbitrary: acc)
  case Nil
  show ?case by (simp add: resolved_hrefs_def)
next
  case (Cons h hrefs)
  note step = push_link_value [of rt baseUrl bd h acc]
  show ?case
    by (simp add: step Cons.IH resolved_hrefs_def Let_def)
qed

lemma links_of_hrefs:
  "bindE (foldE (push_link rt baseUrl (link_hostname rt baseUrl)) hrefs ([], []))
         (\<lambda>acc. Inr (links_result acc)) =
   Inr \<lparr>internal = take 200 (new_Set (filter (\<lambda>n. link_hostname rt n = link_hostname rt baseUrl)
                                 (resolved_hrefs rt baseUrl hrefs))),
        external = take 200 (new_Set (filter (\<lambda>n. link_hostname rt n \<noteq> link_hostname rt baseUrl
                                              \<and> link_hostname rt n \<noteq> [])
                                 (resolved_hrefs rt baseUrl hrefs))),
        canonicalized = True\<rparr>"
  by (simp add: foldE_push_link links_result_def slice0_def)

lemma sample_links:
  "extractLinks sample_runtime
     (Some (static_page [] [] [Some ''/about'', Some ''https://other.example/x''])) None
     ''https://example.com/''
   = Inr \<lparr>internal = [''https://example.com/about''],
          external = [''https://other.example/x''], canonicalized = True\<rparr>"
  by (simp add: extractLinks_def extractDomain_def normalizeUrl_def try_catch_def push_link_def
                links_result_def sample_runtime_def sample_URL_new_def example_com_def
                static_page_def truthy_def new_Set_def Set_add_def slice0_def)

text \<open>
  C6 (as amended): on both paths the link extractor resolves every non-empty \<open>href\<close>
  against the page URL with the fragment removed, puts the resolved link into the internal
  list when its host name equals that of the page URL, into the external list when its
  host name is non-empty and differs, and into neither list when its host name is empty
  and differs; both lists are then deduplicated and cut at 200 entries. On
  \<open>https://example.com/\<close> the anchors \<open>/about\<close> and
  \<open>https://other.example/x\<close> give internal \<open>[https://example.com/about]\<close> and
  external \<open>[https://other.example/x]\<close>.
\<close>
theorem links_resolved_classified_capped:
  "(sel_each_attr c ''a[href]'' ''href'' = Inr hrefs \<longrightarrow>
      (\<exists>ls. extractLinks rt (Some c) None baseUrl = Inr ls
         \<and> internal ls = take 200 (new_Set (filter
               (\<lambda>n. link_hostname rt n = link_hostname rt baseUrl)
               (resolved_hrefs rt baseUrl hrefs)))
         \<and> external ls = take 200 (new_Set (filter
               (\<lambda>n. link_hostname rt n \<noteq> link_hostname rt baseUrl \<and> link_hostname rt n \<noteq> [])
               (resolved_hrefs rt baseUrl hrefs)))
         \<and> distinct (internal ls) \<and> distinct (external ls)
         \<and> length (internal ls) \<le> 200 \<and> length (external ls) \<le> 200
         \<and> canonicalized ls))
   \<and> (locator_all_getAttribute page ''a[href]'' ''href'' = Inr hrefs \<longrightarrow>
      (\<exists>ls. extractLinks rt None (Some page) baseUrl = Inr ls
         \<and> internal ls = take 200 (new_Set (filter
               (\<lambda>n. link_hostname rt n = link_hostname rt baseUrl)
               (resolved_hrefs rt baseUrl hrefs)))
         \<and> external ls = take 200 (new_Set (filter
               (\<lambda>n. link_hostname rt n \<noteq> link_hostname rt baseUrl \<and> link_hostname rt n \<noteq> [])
               (resolved_hrefs rt baseUrl hrefs)))
         \<and> distinct (internal ls) \<and> distinct (external ls)
         \<and> length (internal ls) \<le> 200 \<and> length (external ls) \<le> 200
         \<and> canonicalized ls))
   \<and> (\<forall>b r. URL_new rt baseUrl None = Inr b \<longrightarrow> URL_new rt href (Some b) = Inr r \<longrightarrow>
          resolved_link rt baseUrl href = URL_href rt (URL_set_hash rt r []))
   \<and> extractLinks sample_runtime
        (Some (static_page [] [] [Some ''/about'', Some ''https://other.example/x''])) None
        ''https://example.com/''
      = Inr \<lparr>internal = [''https://example.com/about''],
             external = [''https://other.example/x''], canonicalized = True\<rparr>"
proof -
  have frag: "\<forall>b r. URL_new rt baseUrl None = Inr b \<longrightarrow> URL_new rt href (Some b) = Inr r \<longrightarrow>
          resolved_link rt baseUrl href = URL_href rt (URL_set_hash rt r [])"
    by (simp add: resolved_link_def normalizeUrl_def try_catch_def)
  have static: "sel_each_attr c ''a[href]'' ''href'' = Inr hrefs \<longrightarrow>
      (\<exists>ls. extractLinks rt (Some c) None baseUrl = Inr ls
         \<and> internal ls = take 200 (new_Set (filter
               (\<lambda>n. link_hostname rt n = link_hostname rt baseUrl)
               (resolved_hrefs rt baseUrl hrefs)))
         \<and> external ls = take 200 (new_Set (filter
               (\<lambda>n. link_hostname rt n \<noteq> link_hostname rt baseUrl \<and> link_hostname rt n \<noteq> [])
               (resolved_hrefs rt baseUrl hrefs)))
         \<and> distinct (internal ls) \<and> distinct (external ls)
         \<and> length (internal ls) \<le> 200 \<and> length (external ls) \<le> 200
         \<and> canonicalized ls)"
    by (simp add: extractLinks_def extractDomain_total links_of_hrefs distinct_new_Set)
  have rendered: "locator_all_getAttribute page ''a[href]'' ''href'' = Inr hrefs \<longrightarrow>
      (\<exists>ls. extractLinks rt None (Some page) baseUrl = Inr ls
         \<and> internal ls = take 200 (new_Set (filter
               (\<lambda>n. link_hostname rt n = link_hostname rt baseUrl)
               (resolved_hrefs rt baseUrl hrefs)))
         \<and> external ls = take 200 (new_Set (filter
               (\<lambda>n. link_hostname rt n \<noteq> link_hostname rt baseUrl \<and> link_hostname rt n \<noteq> [])
               (resolved_hrefs rt baseUrl hrefs)))
         \<and> distinct (internal ls) \<and> distinct (external ls)
         \<and> length (internal ls) \<le> 200 \<and> length (external ls) \<le> 200
         \<and> canonicalized ls)"
    by (simp add: extractLinks_def extractDomain_total links_of_hrefs distinct_new_Set)
  show ?thesis
    using static rendered frag sample_links by blast
qed

theorem links_resolved_classified_capped_witness:
  "sel_each_attr (static_page [] [] mixed_hrefs) ''a[href]'' ''href'' = Inr mixed_hrefs
   \<and> URL_new sample_runtime ''https://example.com/'' None = Inr example_com
   \<and> URL_new sample_runtime ''/about#team'' (Some example_com)
       = Inr (SampleURL ''https://example.com/about'' ''example.com'' (Some ''team''))
   \<and> resolved_link sample_runtime ''https://example.com/'' ''/about#team''
       = ''https://example.com/about''
   \<and> extractLinks sample_runtime (Some (static_page [] [] mixed_hrefs)) None ''https://example.com/''
       = Inr \<lparr>internal = [''https://example.com/about''],
              external = [''https://other.example/x''], canonicalized = True\<rparr>"
proof -
  have q: "sel_each_attr (static_page [] [] mixed_hrefs) ''a[href]'' ''href'' = Inr mixed_hrefs"
    by (simp add: static_page_def)
  have b: "URL_new sample_runtime ''https://example.com/'' None = Inr example_com"
    by (simp add: sample_runtime_def sample_URL_new_def)
  have r: "URL_new sample_runtime ''/about#team'' (Some example_com)
             = Inr (SampleURL ''https://example.com/about'' ''example.com'' (Some ''team''))"
    by (simp add: sample_runtime_def sample_URL_new_def)
  have h: "link_hostname sample_runtime ''https://example.com/'' = ''example.com''"
    by (simp add: link_hostname_def extractDomain_def try_catch_def sample_runtime_def
                  sample_URL_new_def example_com_def)
  have rs: "resolved_hrefs sample_runtime ''https://example.com/'' mixed_hrefs
              = [''https://example.com/about'', ''mailto:info@example.com'',
                 ''https://example.com/about'', ''https://other.example/x'']"
    by (simp add: resolved_hrefs_def mixed_hrefs_def truthy_def resolved_link_def
                  normalizeUrl_def try_catch_def sample_runtime_def sample_URL_new_def
                  example_com_def)
  have hs: "link_hostname sample_runtime ''https://example.com/about'' = ''example.com''"
           "link_hostname sample_runtime ''mailto:info@example.com'' = []"
           "link_hostname sample_runtime ''https://other.example/x'' = ''other.example''"
    by (simp_all add: link_hostname_def extractDomain_def try_catch_def sample_runtime_def
                      sample_URL_new_def example_com_def)
  from links_resolved_classified_capped
         [of "static_page [] [] mixed_hrefs" mixed_hrefs sample_runtime "''https://example.com/''"
             empty_rendered_page "''/about#team''"]
  obtain ls where
    ls: "extractLinks sample_runtime (Some (static_page [] [] mixed_hrefs)) None
           ''https://example.com/'' = Inr ls"
    and i: "internal ls = take 200 (new_Set (filter
               (\<lambda>n. link_hostname sample_runtime n = link_hostname sample_runtime ''https://example.com/'')
               (resolved_hrefs sample_runtime ''https://example.com/'' mixed_hrefs)))"
    and e: "external ls = take 200 (new_Set (filter
               (\<lambda>n. link_hostname sample_runtime n \<noteq> link_hostname sample_runtime ''https://example.com/''
                    \<and> link_hostname sample_runtime n \<noteq> [])
               (resolved_hrefs sample_runtime ''https://example.com/'' mixed_hrefs)))"
    and f: "resolved_link sample_runtime ''https://example.com/'' ''/about#team''
              = URL_href sample_runtime (URL_set_hash sample_runtime
                  (SampleURL ''https://example.com/about'' ''example.com'' (Some ''team'')) [])"
    and c: "canonicalized ls"
    using q b r by blast
  have i': "internal ls = [''https://example.com/about'']"
    using i by (simp add: rs h hs new_Set_def Set_add_def)
  have e': "external ls = [''https://other.example/x'']"
    using e by (simp add: rs h hs new_Set_def Set_add_def)
  have f': "resolved_link sample_runtime ''https://example.com/'' ''/about#team''
              = ''https://example.com/about''"
    using f by (simp add: sample_runtime_def)
  have "ls = \<lparr>internal = [''https://example.com/about''],
              external = [''https://other.example/x''], canonicalized = True\<rparr>"
    using i' e' c by (cases ls) simp
  with ls q b r f' show ?thesis by simp
qed

text \<open>
  The claim as stated fails: a \<open>mailto:\<close> link has an empty host name, which
  differs from the host name of the page, and it is not put into the external list.
\<close>

theorem mailto_link_is_dropped:
  "link_hostname sample_runtime
       (resolved_link sample_runtime ''https://example.com/'' ''mailto:info@example.com'')
     \<noteq> link_hostname sample_runtime ''https://example.com/''
   \<and> extractLinks sample_runtime (Some (static_page [] [] [Some ''mailto:info@example.com''])) None
       ''https://example.com/''
     = Inr \<lparr>internal = [], external = [], canonicalized = True\<rparr>"
  by (simp add: extractLinks_def extractDomain_def normalizeUrl_def try_catch_def push_link_def
                links_result_def sample_runtime_def sample_URL_new_def example_com_def
                static_page_def truthy_def new_Set_def slice0_def link_hostname_def
                resolved_link_def)


section \<open>Schema types\<close>

lemma type_names_Cons: "type_names (j # parsed) = type_names [j] \<union> type_names parsed"
  by (auto simp: type_names_def)

lemma type_names_Nil: "type_names [] = {}"
  by (simp add: type_names_def)

lemma type_names_leaf:
  "type_names [JNull] = {}" "type_names [JBool b] = {}" "type_names [JNumber n] = {}"
  "type_names [JString s] = {}"
  by (simp_all add: type_names_def)

lemma type_names_JArray: "type_names [JArray xs] = type_names xs"
  by (auto simp: type_names_def)

lemma set_subvalues_JObject:
  "set (subvalues (JObject props)) = insert (JObject props) (\<Union>p \<in> set props. set (subvalues (snd p)))"
  by (auto simp: case_prod_beta)

lemma type_names_JObject:
  "type_names [JObject props] =
     {t. t \<noteq> [] \<and> map_of props ''@type'' = Some (JString t)} \<union> type_names (map snd props)"
proof (rule set_eqI)
  fix t
  have "t \<in> type_names [JObject props] \<longleftrightarrow>
          t \<noteq> [] \<and> (\<exists>ps. JObject ps \<in> set (subvalues (JObject props))
                        \<and> map_of ps ''@type'' = Some (JString t))"
    by (simp add: type_names_def)
  also have "\<dots> \<longleftrightarrow> t \<noteq> [] \<and> (map_of props ''@type'' = Some (JString t)
                 \<or> (\<exists>p \<in> set props. \<exists>ps. JObject ps \<in> set (subvalues (snd p))
                        \<and> map_of ps ''@type'' = Some (JString t)))"
    unfolding set_subvalues_JObject by blast
  also have "\<dots> \<longleftrightarrow> t \<in> {t. t \<noteq> [] \<and> map_of props ''@type'' = Some (JString t)}
                        \<union> type_names (map snd props)"
    by (simp add: type_names_def) blast
  finally show "t \<in> type_names [JObject props] \<longleftrightarrow>
     t \<in> {t. t \<noteq> [] \<and> map_of props ''@type'' = Some (JString t)} \<union> type_names (map snd props)" .
qed


lemma fold_traverse_set:
  assumes "\<And>x acc. x \<in> set xs \<Longrightarrow> set (traverse x acc) = set acc \<union> type_names [x]"
  shows "set (fold traverse xs acc) = set acc \<union> type_names xs"
  using assms
proof (induction xs arbitrary: acc)
  case Nil
  show ?case by (simp add: type_names_Nil)
next
  case (Cons x xs)
  have "set (fold traverse xs (traverse x acc)) = set (traverse x acc) \<union> type_names xs"
  proof (rule Cons.IH)
    fix x' and acc' :: "string list"
    assume "x' \<in> set xs"
    then show "set (traverse x' acc') = set acc' \<union> type_names [x']"
      by (intro Cons.prems) simp
  qed
  moreover have "set (traverse x acc) = set acc \<union> type_names [x]"
    by (rule Cons.prems) simp
  ultimately show ?case
    using type_names_Cons [of x xs] by auto
qed

lemma fold_props_set:
  assumes "\<And>k v acc. (k, v) \<in> set props \<Longrightarrow> set (traverse v acc) = set acc \<union> type_names [v]"
  shows "set (fold (\<lambda>(k, v). traverse v) props acc) = set acc \<union> type_names (map snd props)"
  using assms
proof (induction props arbitrary: acc)
  case Nil
  show ?case by (simp add: type_names_Nil)
next
  case (Cons p props)
  obtain k v where p: "p = (k, v)" by (cases p)
  have "set (fold (\<lambda>(k, v). traverse v) props (traverse v acc))
          = set (traverse v acc) \<union> type_names (map snd props)"
  proof (rule Cons.IH)
    fix k' v' and acc' :: "string list"
    assume "(k', v') \<in> set props"
    then show "set (traverse v' acc') = set acc' \<union> type_names [v']"
      by (intro Cons.prems [of k']) simp
  qed
  moreover have "set (traverse v acc) = set acc \<union> type_names [v]"
    by (rule Cons.prems [of k v]) (simp add: p)
  ultimately show ?case
    using type_names_Cons [of v "map snd props"] p by auto
qed

lemma set_traverse: "set (traverse j acc) = set acc \<union> type_names [j]"
proof (induction j acc rule: traverse.induct)
  case (1 xs types)
  have "set (fold traverse xs types) = set types \<union> type_names xs"
    by (rule fold_traverse_set) (rule "1.IH")
  then show ?case by (simp add: type_names_JArray)
next
  case (2 props types)
  define acc0 where "acc0 = (case map_of props ''@type'' of
          Some (JString t) \<Rightarrow> if t \<noteq> [] then Set_add t types else types
        | _ \<Rightarrow> types)"
  have ih: "set (traverse v acc) = set acc \<union> type_names [v]" if "(k, v) \<in> set props" for k v acc
    using "2.IH" [of "(k, v)" k v acc] that by simp
  have "set (fold (\<lambda>(k, v). traverse v) props acc0) = set acc0 \<union> type_names (map snd props)"
    by (rule fold_props_set) (rule ih)
  moreover have "set acc0 = set types \<union> {t. t \<noteq> [] \<and> map_of props ''@type'' = Some (JString t)}"
  proof (cases "map_of props ''@type''")
    case None
    then show ?thesis by (simp add: acc0_def)
  next
    case (Some a)
    then show ?thesis
      by (cases a) (auto simp: acc0_def set_Set_add)
  qed
  ultimately show ?case
    by (simp add: type_names_JObject acc0_def Un_assoc)
qed (simp_all add: type_names_leaf)

lemma fold_traverse_distinct:
  assumes "\<And>x acc. x \<in> set xs \<Longrightarrow> distinct acc \<Longrightarrow> distinct (traverse x acc)"
    and "distinct acc"
  shows "distinct (fold traverse xs acc)"
  using assms
proof (induction xs arbitrary: acc)
  case Nil
  then show ?case by simp
next
  case (Cons x xs)
  have "distinct (traverse x acc)"
    by (rule Cons.prems(1)) (simp_all add: Cons.prems(2))
  then have "distinct (fold traverse xs (traverse x acc))"
  proof (rule Cons.IH [rotated])
    fix x' and acc' :: "string list"
    assume "x' \<in> set xs" "distinct acc'"
    then show "distinct (traverse x' acc')"
      by (intro Cons.prems(1)) simp_all
  qed
  then show ?case by simp
qed

lemma fold_props_distinct:
  assumes "\<And>k v acc. (k, v) \<in> set props \<Longrightarrow> distinct acc \<Longrightarrow> distinct (traverse v acc)"
    and "distinct acc"
  shows "distinct (fold (\<lambda>(k, v). traverse v) props acc)"
  using assms
proof (induction props arbitrary: acc)
  case Nil
  then show ?case by simp
next
  case (Cons p props)
  obtain k v where p: "p = (k, v)" by (cases p)
  have "distinct (traverse v acc)"
    by (rule Cons.prems(1) [of k v]) (simp_all add: p Cons.prems(2))
  then have "distinct (fold (\<lambda>(k, v). traverse v) props (traverse v acc))"
  proof (rule Cons.IH [rotated])
    fix k' v' and acc' :: "string list"
    assume "(k', v') \<in> set props" "distinct acc'"
    then show "distinct (traverse v' acc')"
      by (intro Cons.prems(1) [of k']) simp_all
  qed
  then show ?case by (simp add: p)
qed

lemma distinct_traverse: "distinct acc \<Longrightarrow> distinct (traverse j acc)"
proof (induction j acc rule: traverse.induct)
  case (1 xs types)
  have "distinct (fold traverse xs types)"
    by (rule fold_traverse_distinct) (simp_all add: "1.IH" "1.prems")
  then show ?case by simp
next
  case (2 props types)
  have a: "distinct (case map_of props ''@type'' of
          Some (JString t) \<Rightarrow> if t \<noteq> [] then Set_add t types else types
        | _ \<Rightarrow> types)"
    using "2.prems" by (simp add: Set_add_distinct split: option.splits json.splits)
  have ih: "distinct (traverse v acc)" if "(k, v) \<in> set props" "distinct acc" for k v acc
    using "2.IH" [of "(k, v)" k v acc] that by simp
  have "distinct (fold (\<lambda>(k, v). traverse v) props
          (case map_of props ''@type'' of
             Some (JString t) \<Rightarrow> if t \<noteq> [] then Set_add t types else types
           | _ \<Rightarrow> types))"
    by (rule fold_props_distinct) (simp_all add: ih a)
  then show ?case by simp
qed simp_all

text \<open>
  C8 (as amended): \<open>extractSchemaTypes\<close> is a recursive descent over the parsed
  values, which are finite trees; it returns for every input, without a visited set or a
  depth limit, and its result has no duplicates and holds exactly the non-empty strings
  that are the \<open>@type\<close> property of an object inside one of the parsed values.
\<close>
theorem schema_types_collected:
  "distinct (extractSchemaTypes parsed) \<and> set (extractSchemaTypes parsed) = type_names parsed"
proof -
  have "distinct (fold traverse parsed [])"
    by (rule fold_traverse_distinct) (simp_all add: distinct_traverse)
  moreover have "set (fold traverse parsed []) = set [] \<union> type_names parsed"
    by (rule fold_traverse_set) (rule set_traverse)
  ultimately show ?thesis by (simp add: extractSchemaTypes_def)
qed

theorem schema_types_collected_witness:
  "extractSchemaTypes organization_jsonld = [''Organization'', ''Person'']
   \<and> type_names organization_jsonld = {''Organization'', ''Person''}"
proof -
  have v: "extractSchemaTypes organization_jsonld = [''Organization'', ''Person'']"
    by (simp add: extractSchemaTypes_def organization_jsonld_def Set_add_def)
  from schema_types_collected [of organization_jsonld] v show ?thesis
    by auto
qed

text \<open>
  The claim as stated fails: an \<open>@type\<close> whose value is the empty string is a string
  value and is not collected.
\<close>

theorem empty_type_not_collected:
  "map_of [(''@type'', JString [])] ''@type'' = Some (JString [])
   \<and> [] \<notin> set (extractSchemaTypes [JObject [(''@type'', JString [])]])"
  by (simp add: extractSchemaTypes_def)

section \<open>Counters of the hybrid crawler\<close>

lemma hybrid_cheerio_step:
  "js_processed (stats (handle_static hybrid_cheerio_handler w r st)) = js_processed (stats st)"
  "hybrid_requestQueue (handle_static hybrid_cheerio_handler w r st) = hybrid_requestQueue st"
  "default_Dataset (handle_static hybrid_cheerio_handler w r st) = default_Dataset st"
  "length (hybrid_fallbackUrls st) \<le> 10 \<Longrightarrow>
     length (hybrid_fallbackUrls (handle_static hybrid_cheerio_handler w r st)) \<le> 10"
  by (auto simp: handle_static_def hybrid_cheerio_handler_def try_catch_def bindE_def Let_def
           split: sum.splits option.splits)

lemma hybrid_cheerio_fold:
  "js_processed (stats (fold (handle_static hybrid_cheerio_handler w) rs st)) = js_processed (stats st)
   \<and> hybrid_requestQueue (fold (handle_static hybrid_cheerio_handler w) rs st) = hybrid_requestQueue st
   \<and> default_Dataset (fold (handle_static hybrid_cheerio_handler w) rs st) = default_Dataset st
   \<and> (length (hybrid_fallbackUrls st) \<le> 10 \<longrightarrow>
        length (hybrid_fallbackUrls (fold (handle_static hybrid_cheerio_handler w) rs st)) \<le> 10)"
proof (induction rs arbitrary: st)
  case Nil
  show ?case by simp
next
  case (Cons r rs)
  show ?case
    using Cons.IH [of "handle_static hybrid_cheerio_handler w r st"]
          hybrid_cheerio_step [where w = w and r = r and st = st]
    by simp
qed





lemma marked_seeds:
  "marked (pending (fold (\<lambda>u. addRequest (seed_request w u)) us q)) = marked (pending q)"
  by (induction us arbitrary: q) (simp_all add: addRequest_def seed_request_def marked_def)

lemma marked_fallbacks:
  "marked (pending (fold (\<lambda>u. addRequest (fallback_request u)) us q)) \<le> marked (pending q) + length us"
proof (induction us arbitrary: q)
  case Nil
  show ?case by simp
next
  case (Cons u us)
  have "marked (pending (addRequest (fallback_request u) q)) \<le> marked (pending q) + 1"
    by (simp add: addRequest_def marked_def)
  with Cons.IH [of "addRequest (fallback_request u) q"] show ?case by simp
qed

lemma marked_take: "marked (take n rs) \<le> marked rs"
proof -
  have "marked rs = marked (take n rs) + marked (drop n rs)"
    unfolding marked_def by (metis append_take_drop_id filter_append length_append)
  then show ?thesis by simp
qed

lemma marked_drop: "marked (drop n rs) \<le> marked rs"
proof -
  have "marked rs = marked (take n rs) + marked (drop n rs)"
    unfolding marked_def by (metis append_take_drop_id filter_append length_append)
  then show ?thesis by simp
qed


text \<open>The fallback handler never throws; for a request with the marker every run of it
  counts one and pushes one record of the request's URL.\<close>

lemma probe_rendered_total: "\<exists>v. probe_field selector ok None (Some page) = Inr v"
  by (simp add: probe_field_def try_catch_def bindE_def split: sum.splits)

lemma hybrid_render_handler:
  "needsJs r \<noteq> Some True \<Longrightarrow> hybrid_playwright_handler now r page response st = Inr st"
  "needsJs r = Some True \<Longrightarrow>
     \<exists>t p pr. extractServiceTitle None (Some page) = Inr t
       \<and> extractProvider None (Some page) = Inr p
       \<and> extractPriceText None (Some page) = Inr pr
       \<and> hybrid_playwright_handler now r page response st
           = Inr (st\<lparr>stats := (stats st)\<lparr>js_processed := js_processed (stats st) + 1\<rparr>,
                      hybrid_console := hybrid_console st @ [Playwright_Extracted (req_url r)],
                      default_Dataset := default_Dataset st @
                        [\<lparr>data_url = req_url r, data_timestampISO = Some now,
                          data_serviceTitle = t, data_provider = p, data_priceText = pr\<rparr>]\<rparr>)"
proof -
  show "needsJs r \<noteq> Some True \<Longrightarrow> hybrid_playwright_handler now r page response st = Inr st"
    by (simp add: hybrid_playwright_handler_def)
next
  assume m: "needsJs r = Some True"
  obtain t where t: "extractServiceTitle None (Some page) = Inr t"
    unfolding extractServiceTitle_def using probe_rendered_total by blast
  obtain p where p: "extractProvider None (Some page) = Inr p"
    unfolding extractProvider_def using probe_rendered_total by blast
  obtain pr where pr: "extractPriceText None (Some page) = Inr pr"
    unfolding extractPriceText_def using probe_rendered_total by blast
  have "hybrid_playwright_handler now r page response st
           = Inr (st\<lparr>stats := (stats st)\<lparr>js_processed := js_processed (stats st) + 1\<rparr>,
                      hybrid_console := hybrid_console st @ [Playwright_Extracted (req_url r)],
                      default_Dataset := default_Dataset st @
                        [\<lparr>data_url = req_url r, data_timestampISO = Some now,
                          data_serviceTitle = t, data_provider = p, data_priceText = pr\<rparr>]\<rparr>)"
    by (simp add: hybrid_playwright_handler_def m t p pr try_catch_def Let_def)
  with t p pr show "\<exists>t p pr. extractServiceTitle None (Some page) = Inr t
       \<and> extractProvider None (Some page) = Inr p
       \<and> extractPriceText None (Some page) = Inr pr
       \<and> hybrid_playwright_handler now r page response st
           = Inr (st\<lparr>stats := (stats st)\<lparr>js_processed := js_processed (stats st) + 1\<rparr>,
                      hybrid_console := hybrid_console st @ [Playwright_Extracted (req_url r)],
                      default_Dataset := default_Dataset st @
                        [\<lparr>data_url = req_url r, data_timestampISO = Some now,
                          data_serviceTitle = t, data_provider = p, data_priceText = pr\<rparr>]\<rparr>)"
    by blast
qed

lemma hybrid_render_handler_facts:
  "\<exists>st'. hybrid_playwright_handler now r page response st = Inr st'
     \<and> js_processed (stats st') = js_processed (stats st) + marked [r]
     \<and> http_ok (stats st') = http_ok (stats st)
     \<and> (\<forall>x \<in> set (default_Dataset st').
           x \<in> set (default_Dataset st) \<or> needsJs r = Some True \<and> data_url x = req_url r)"
proof (cases "needsJs r = Some True")
  case True
  from hybrid_render_handler(2) [OF True, of page now response st]
  show ?thesis using True by (auto simp: marked_def)
next
  case False
  then show ?thesis by (simp add: hybrid_render_handler(1) marked_def)
qed

lemma hybrid_attempts:
  "js_processed (stats (run_attempts hybrid_playwright_handler r attempts st))
     \<le> js_processed (stats st) + length attempts * marked [r]
   \<and> http_ok (stats (run_attempts hybrid_playwright_handler r attempts st)) = http_ok (stats st)
   \<and> (\<forall>x \<in> set (default_Dataset (run_attempts hybrid_playwright_handler r attempts st)).
         x \<in> set (default_Dataset st) \<or> needsJs r = Some True \<and> data_url x = req_url r)"
proof (induction attempts arbitrary: st)
  case Nil
  show ?case by simp
next
  case (Cons a attempts)
  show ?case
  proof (cases a)
    case Navigation_failed
    then show ?thesis using Cons.IH [of st] by simp
  next
    case (Handler_called page response now late)
    from hybrid_render_handler_facts [of now r page response st]
    obtain st' where h: "hybrid_playwright_handler now r page response st = Inr st'"
      and j: "js_processed (stats st') = js_processed (stats st) + marked [r]"
      and k: "http_ok (stats st') = http_ok (stats st)"
      and d: "\<forall>x \<in> set (default_Dataset st').
                x \<in> set (default_Dataset st) \<or> needsJs r = Some True \<and> data_url x = req_url r"
      by blast
    show ?thesis
    proof (cases late)
      case True
      have run: "run_attempts hybrid_playwright_handler r (a # attempts) st
              = run_attempts hybrid_playwright_handler r attempts st'"
        by (simp add: Handler_called h True)
      from Cons.IH [of st']
      have 1: "js_processed (stats (run_attempts hybrid_playwright_handler r attempts st'))
                 \<le> js_processed (stats st') + length attempts * marked [r]"
        and 2: "http_ok (stats (run_attempts hybrid_playwright_handler r attempts st')) = http_ok (stats st')"
        and 3: "\<forall>x \<in> set (default_Dataset (run_attempts hybrid_playwright_handler r attempts st')).
                 x \<in> set (default_Dataset st') \<or> needsJs r = Some True \<and> data_url x = req_url r"
        by blast+
      have "js_processed (stats (run_attempts hybrid_playwright_handler r attempts st'))
              \<le> js_processed (stats st) + length (a # attempts) * marked [r]"
        using 1 j by simp
      moreover have "\<forall>x \<in> set (default_Dataset (run_attempts hybrid_playwright_handler r attempts st')).
                 x \<in> set (default_Dataset st) \<or> needsJs r = Some True \<and> data_url x = req_url r"
        using 3 d by blast
      ultimately show ?thesis unfolding run using 2 k by simp
    next
      case False
      have run: "run_attempts hybrid_playwright_handler r (a # attempts) st = st'"
        by (simp add: Handler_called h False)
      have "js_processed (stats st') \<le> js_processed (stats st) + length (a # attempts) * marked [r]"
        using j by simp
      then show ?thesis unfolding run using k d by simp
    qed
  qed
qed

lemma hybrid_playwright_step:
  "js_processed (stats (handle_rendered hybrid_playwright_handler w r st))
     \<le> js_processed (stats st) + 4 * marked [r]"
  "http_ok (stats (handle_rendered hybrid_playwright_handler w r st)) = http_ok (stats st)"
  "\<forall>x \<in> set (default_Dataset (handle_rendered hybrid_playwright_handler w r st)).
     x \<in> set (default_Dataset st) \<or> needsJs r = Some True \<and> data_url x = req_url r"
proof -
  define attempts where "attempts = take (Suc maxRequestRetries) (browser_attempts w r)"
  have run: "handle_rendered hybrid_playwright_handler w r st
               = run_attempts hybrid_playwright_handler r attempts st"
    by (simp add: handle_rendered_def attempts_def)
  have "length attempts \<le> 4" by (simp add: attempts_def maxRequestRetries_def)
  then have "length attempts * marked [r] \<le> 4 * marked [r]" by (rule mult_le_mono1)
  with hybrid_attempts [of r attempts st]
  show "js_processed (stats (handle_rendered hybrid_playwright_handler w r st))
     \<le> js_processed (stats st) + 4 * marked [r]"
    unfolding run by linarith
  from hybrid_attempts [of r attempts st]
  show "http_ok (stats (handle_rendered hybrid_playwright_handler w r st)) = http_ok (stats st)"
    and "\<forall>x \<in> set (default_Dataset (handle_rendered hybrid_playwright_handler w r st)).
     x \<in> set (default_Dataset st) \<or> needsJs r = Some True \<and> data_url x = req_url r"
    unfolding run by blast+
qed

lemma hybrid_playwright_fold:
  "js_processed (stats (fold (handle_rendered hybrid_playwright_handler w) rs st))
     \<le> js_processed (stats st) + 4 * marked rs
   \<and> http_ok (stats (fold (handle_rendered hybrid_playwright_handler w) rs st)) = http_ok (stats st)
   \<and> (\<forall>x \<in> set (default_Dataset (fold (handle_rendered hybrid_playwright_handler w) rs st)).
         x \<in> set (default_Dataset st)
         \<or> (\<exists>r \<in> set rs. needsJs r = Some True \<and> data_url x = req_url r))"
proof (induction rs arbitrary: st)
  case Nil
  show ?case by (simp add: marked_def)
next
  case (Cons r rs)
  let ?st = "handle_rendered hybrid_playwright_handler w r st"
  have m: "marked (r # rs) = marked [r] + marked rs" by (simp add: marked_def)
  from Cons.IH [of ?st]
  have 1: "js_processed (stats (fold (handle_rendered hybrid_playwright_handler w) rs ?st))
             \<le> js_processed (stats ?st) + 4 * marked rs"
    and 2: "\<forall>x \<in> set (default_Dataset (fold (handle_rendered hybrid_playwright_handler w) rs ?st)).
         x \<in> set (default_Dataset ?st)
         \<or> (\<exists>r \<in> set rs. needsJs r = Some True \<and> data_url x = req_url r)"
    and 3: "http_ok (stats (fold (handle_rendered hybrid_playwright_handler w) rs ?st)) = http_ok (stats ?st)"
    by blast+
  have "js_processed (stats (fold (handle_rendered hybrid_playwright_handler w) rs ?st))
          \<le> js_processed (stats st) + 4 * marked (r # rs)"
    using 1 hybrid_playwright_step(1) [of w r st] m by simp
  moreover have "\<forall>x \<in> set (default_Dataset (fold (handle_rendered hybrid_playwright_handler w) rs ?st)).
         x \<in> set (default_Dataset st)
         \<or> (\<exists>q \<in> set (r # rs). needsJs q = Some True \<and> data_url x = req_url q)"
  proof
    fix x
    assume "x \<in> set (default_Dataset (fold (handle_rendered hybrid_playwright_handler w) rs ?st))"
    with 2 have "x \<in> set (default_Dataset ?st)
         \<or> (\<exists>r \<in> set rs. needsJs r = Some True \<and> data_url x = req_url r)" by blast
    then show "x \<in> set (default_Dataset st)
         \<or> (\<exists>q \<in> set (r # rs). needsJs q = Some True \<and> data_url x = req_url q)"
      using hybrid_playwright_step(3) [of w r st] by auto
  qed
  ultimately show ?case using 3 hybrid_playwright_step(2) [of w r st] by simp
qed

lemma fast_pass_facts:
  "js_processed (stats (hybrid_fast_pass w config)) = 0
   \<and> marked (pending (hybrid_requestQueue (hybrid_fast_pass w config))) = 0
   \<and> length (hybrid_fallbackUrls (hybrid_fast_pass w config)) \<le> 10
   \<and> default_Dataset (hybrid_fast_pass w config) = []"
proof -
  define st0 where "st0 = hybrid_initial w config"
  define n where "n = hybrid_maxRequests config"
  define st1 where "st1 = st0\<lparr>hybrid_requestQueue :=
      (hybrid_requestQueue st0)\<lparr>pending := drop n (pending (hybrid_requestQueue st0))\<rparr>\<rparr>"
  have fp: "hybrid_fast_pass w config
              = fold (handle_static hybrid_cheerio_handler w) (take n (pending (hybrid_requestQueue st0))) st1"
    by (simp add: hybrid_fast_pass_def hybrid_cheerio_run_def take_batch_def st0_def n_def st1_def)
  have m0: "marked (pending (hybrid_requestQueue st0)) = 0"
    by (simp add: st0_def hybrid_initial_def marked_seeds) (simp add: marked_def)
  have m1: "marked (pending (hybrid_requestQueue st1)) = 0"
    using marked_drop [of n "pending (hybrid_requestQueue st0)"] m0 by (simp add: st1_def)
  have j1: "js_processed (stats st1) = 0" "length (hybrid_fallbackUrls st1) \<le> 10"
           "default_Dataset st1 = []"
    by (simp_all add: st1_def st0_def hybrid_initial_def)
  show ?thesis
    unfolding fp
    using hybrid_cheerio_fold [of w "take n (pending (hybrid_requestQueue st0))" st1] m1 j1
    by simp
qed

text \<open>Each of the at most ten listed URLs is attempted at most four times.\<close>

lemma js_processed_le_40: "js_processed (stats (hybrid_run w config)) \<le> 40"
proof -
  define st1 where "st1 = validate_stats (hybrid_fast_pass w config)"
  define st2 where "st2 = (if length (hybrid_fallbackUrls st1) > 0 then hybrid_reenqueue st1 else st1)"
  define st3 where "st3 = hybrid_playwright_run w config st2"
  have run: "stats (hybrid_run w config) = (stats st3)\<lparr>js_rate := compute_js_rate (stats st3)\<rparr>"
    by (simp add: hybrid_run_def Let_def st1_def st2_def st3_def)
  have f1: "js_processed (stats st1) = 0" "marked (pending (hybrid_requestQueue st1)) = 0"
           "length (hybrid_fallbackUrls st1) \<le> 10"
    using fast_pass_facts [of w config] by (simp_all add: st1_def validate_stats_def Let_def)
  have f2: "js_processed (stats st2) = 0" "marked (pending (hybrid_requestQueue st2)) \<le> 10"
    using f1 marked_fallbacks [of "hybrid_fallbackUrls st1" "hybrid_requestQueue st1"]
    by (simp_all add: st2_def hybrid_reenqueue_def)
  define n where "n = hybrid_maxRequests config"
  have "js_processed (stats st3) \<le> 0 + 4 * marked (take n (pending (hybrid_requestQueue st2)))"
    using hybrid_playwright_fold [of w "take n (pending (hybrid_requestQueue st2))"
            "st2\<lparr>hybrid_requestQueue := (hybrid_requestQueue st2)\<lparr>pending := drop n (pending (hybrid_requestQueue st2))\<rparr>\<rparr>"]
          f2(1)
    by (simp add: st3_def hybrid_playwright_run_def take_batch_def n_def)
  also have "\<dots> \<le> 40"
    using marked_take [of n "pending (hybrid_requestQueue st2)"] f2(2) by simp
  finally show ?thesis by (simp add: run)
qed




lemma counter_sum_step:
  "counter_sum st \<Longrightarrow> counter_sum (handle_static hybrid_cheerio_handler w r st)"
  by (auto simp: counter_sum_def handle_static_def hybrid_cheerio_handler_def try_catch_def
                 bindE_def Let_def
           split: sum.splits option.splits)

lemma counter_sum_fold:
  "counter_sum st \<Longrightarrow> counter_sum (fold (handle_static hybrid_cheerio_handler w) rs st)"
  by (induction rs arbitrary: st) (simp_all add: counter_sum_step)

lemma fast_pass_counter_sum:
  "seen (stats (hybrid_fast_pass w config))
     = http_ok (stats (hybrid_fast_pass w config))
       + fallback_enqueued (stats (hybrid_fast_pass w config))
       + length (filter is_Cheerio_Error (hybrid_console (hybrid_fast_pass w config)))"
proof -
  have "counter_sum (hybrid_fast_pass w config)"
    unfolding hybrid_fast_pass_def hybrid_cheerio_run_def take_batch_def Let_def prod.case
    by (rule counter_sum_fold) (simp add: counter_sum_def hybrid_initial_def)
  then show ?thesis by (simp add: counter_sum_def)
qed

section \<open>Sample runs of the hybrid crawler\<close>

lemma defer_step:
  "handle_static hybrid_cheerio_handler (sample_world (\<lambda>u. static_page [] [] []) rendered) r st
     = st\<lparr>stats := (stats st)\<lparr>seen := seen (stats st) + 1,
                               fallback_enqueued := fallback_enqueued (stats st) + 1\<rparr>,
           hybrid_fallbackUrls :=
             (if length (hybrid_fallbackUrls st) < 10
              then hybrid_fallbackUrls st @ [req_url r] else hybrid_fallbackUrls st),
           hybrid_console := hybrid_console st @ [Cheerio_Missing (req_url r)]\<rparr>"
  by (simp add: handle_static_def sample_world_def hybrid_cheerio_handler_def
                extractServiceTitle_def extractProvider_def extractPriceText_def
                probe_field_def first_text_def hasCriticalFields_def truthy_def try_catch_def
                static_page_def Let_def)

lemma sample_world_key: "computeUniqueKey (sample_world static rendered) = (\<lambda>u. u)"
  by (simp add: sample_world_def)

lemma eleven_initial:
  "hybrid_initial (sample_world static rendered) eleven_urls =
     \<lparr>hybrid_requestQueue =
        \<lparr>pending = map (\<lambda>u. \<lparr>req_url = u, uniqueKey = u, needsJs = None\<rparr>)
                     (hybrid_startUrls eleven_urls),
         known_keys = hybrid_startUrls eleven_urls\<rparr>,
      stats = \<lparr>seen = 0, http_ok = 0, fallback_enqueued = 0, js_processed = 0, js_rate = 0\<rparr>,
      hybrid_fallbackUrls = [], default_Dataset = [], hybrid_console = []\<rparr>"
  by (simp add: hybrid_initial_def eleven_urls_def addRequest_def seed_request_def sample_world_key)


lemma render_step:
  "handle_rendered hybrid_playwright_handler (sample_world static (\<lambda>u. empty_rendered_page)) r st
     = (if needsJs r = Some True
        then st\<lparr>stats := (stats st)\<lparr>js_processed := js_processed (stats st) + 1\<rparr>,
                hybrid_console := hybrid_console st @ [Playwright_Extracted (req_url r)],
                default_Dataset := default_Dataset st @
                  [\<lparr>data_url = req_url r, data_timestampISO = Some ''2025-01-01T00:00:00.000Z'',
                    data_serviceTitle = None, data_provider = None, data_priceText = None\<rparr>]\<rparr>
        else st)"
  by (simp add: handle_rendered_def maxRequestRetries_def sample_world_def
                hybrid_playwright_handler_def
                extractServiceTitle_def extractProvider_def extractPriceText_def
                probe_field_def first_text_def try_catch_def empty_rendered_page_def Let_def)

lemma eleven_fast_pass:
  "hybrid_fast_pass (sample_world (\<lambda>u. static_page [] [] []) rendered) eleven_urls =
     \<lparr>hybrid_requestQueue = \<lparr>pending = [], known_keys = hybrid_startUrls eleven_urls\<rparr>,
      stats = \<lparr>seen = 11, http_ok = 0, fallback_enqueued = 11, js_processed = 0, js_rate = 0\<rparr>,
      hybrid_fallbackUrls = take 10 (hybrid_startUrls eleven_urls),
      default_Dataset = [],
      hybrid_console = map Cheerio_Missing (hybrid_startUrls eleven_urls)\<rparr>"
  unfolding hybrid_fast_pass_def eleven_initial
  by (simp add: hybrid_cheerio_run_def take_batch_def hybrid_maxRequests_def defer_step
                eleven_urls_def)


lemma eleven_reenqueue:
  "hybrid_reenqueue (validate_stats
      (hybrid_fast_pass (sample_world (\<lambda>u. static_page [] [] []) rendered) eleven_urls)) =
     \<lparr>hybrid_requestQueue =
        \<lparr>pending = map fallback_request (take 10 (hybrid_startUrls eleven_urls)),
         known_keys = hybrid_startUrls eleven_urls
            @ map (\<lambda>u. u @ ''#js-fallback'') (take 10 (hybrid_startUrls eleven_urls))\<rparr>,
      stats = \<lparr>seen = 11, http_ok = 0, fallback_enqueued = 11, js_processed = 0, js_rate = 0\<rparr>,
      hybrid_fallbackUrls = take 10 (hybrid_startUrls eleven_urls),
      default_Dataset = [],
      hybrid_console = map Cheerio_Missing (hybrid_startUrls eleven_urls)\<rparr>"
  unfolding eleven_fast_pass
  by (simp add: validate_stats_def hybrid_reenqueue_def addRequest_def fallback_request_def
                eleven_urls_def)

lemma throw_step:
  "handle_static hybrid_cheerio_handler (sample_world (\<lambda>u. throwing_static_page) rendered) r st
     = st\<lparr>stats := (stats st)\<lparr>seen := seen (stats st) + 1\<rparr>,
           hybrid_console := hybrid_console st @ [Cheerio_Error (req_url r) (Exn ''boom'')]\<rparr>"
  by (simp add: handle_static_def sample_world_def hybrid_cheerio_handler_def
                extractServiceTitle_def probe_field_def try_catch_def
                throwing_static_page_def static_page_def Let_def)

lemma one_url_fast_pass:
  "hybrid_fast_pass (sample_world (\<lambda>u. throwing_static_page) rendered) one_url =
     \<lparr>hybrid_requestQueue = \<lparr>pending = [], known_keys = [''https://example.com/'']\<rparr>,
      stats = \<lparr>seen = 1, http_ok = 0, fallback_enqueued = 0, js_processed = 0, js_rate = 0\<rparr>,
      hybrid_fallbackUrls = [], default_Dataset = [],
      hybrid_console = [Cheerio_Error ''https://example.com/'' (Exn ''boom'')]\<rparr>"
  by (simp add: hybrid_fast_pass_def hybrid_initial_def one_url_def addRequest_def seed_request_def
                sample_world_key hybrid_cheerio_run_def take_batch_def hybrid_maxRequests_def
                throw_step)

lemma one_url_run:
  "hybrid_run (sample_world (\<lambda>u. throwing_static_page) rendered) one_url =
     \<lparr>hybrid_requestQueue = \<lparr>pending = [], known_keys = [''https://example.com/'']\<rparr>,
      stats = \<lparr>seen = 1, http_ok = 0, fallback_enqueued = 0, js_processed = 0, js_rate = 0\<rparr>,
      hybrid_fallbackUrls = [], default_Dataset = [],
      hybrid_console = [Cheerio_Error ''https://example.com/'' (Exn ''boom''),
                        Stats_mismatch 1 0]\<rparr>"
  unfolding hybrid_run_def one_url_fast_pass
  by (simp add: validate_stats_def hybrid_playwright_run_def take_batch_def compute_js_rate_def)

text \<open>
  C1: the claim is that the counters satisfy \<open>http_ok + fallback_enqueued = seen\<close> when
  the fast pass has drained, whichever outcomes occurred. The handler counts a URL as seen
  before its \<open>try\<close> block and its \<open>catch\<close> block counts nothing, so the sum falls
  short by the number of caught exceptions (\<open>fast_pass_counter_sum\<close>). Here one URL
  is crawled and its extractor throws: \<open>seen\<close> is 1 and the sum is 0.
\<close>

theorem thrown_extractor_breaks_counter_sum:
  "stats (hybrid_fast_pass (sample_world (\<lambda>u. throwing_static_page) (\<lambda>u. empty_rendered_page)) one_url)
     = \<lparr>seen = 1, http_ok = 0, fallback_enqueued = 0, js_processed = 0, js_rate = 0\<rparr>"
  by (simp add: one_url_fast_pass)

text \<open>
  C2: the claim is that a URL whose extractor throws on the fast path is logged and then
  treated as a defer. The hybrid crawler logs it and does nothing else: the URL is not put
  on the fallback list, nothing is re-enqueued and the fallback never sees it. (The content
  harvester does push the URL to its fallback list, see \<open>harvester_catch_defers\<close>.)
\<close>

theorem thrown_extractor_is_not_deferred:
  "hybrid_console (hybrid_fast_pass (sample_world (\<lambda>u. throwing_static_page) (\<lambda>u. empty_rendered_page)) one_url)
     = [Cheerio_Error ''https://example.com/'' (Exn ''boom'')]
   \<and> hybrid_fallbackUrls (hybrid_fast_pass (sample_world (\<lambda>u. throwing_static_page) (\<lambda>u. empty_rendered_page)) one_url) = []
   \<and> pending (hybrid_requestQueue (hybrid_run (sample_world (\<lambda>u. throwing_static_page) (\<lambda>u. empty_rendered_page)) one_url)) = []
   \<and> default_Dataset (hybrid_run (sample_world (\<lambda>u. throwing_static_page) (\<lambda>u. empty_rendered_page)) one_url) = []
   \<and> js_processed (stats (hybrid_run (sample_world (\<lambda>u. throwing_static_page) (\<lambda>u. empty_rendered_page)) one_url)) = 0"
  by (simp add: one_url_fast_pass one_url_run)


section \<open>The rounded rate\<close>

lemma pow2_pos: "0 < (2::rat) powi n"
  by (simp add: zero_less_power_int)

lemma pow2_mono: "m \<le> n \<Longrightarrow> (2::rat) powi m \<le> 2 powi n"
  by (rule power_int_increasing) simp_all

lemma pow2_strict: "m < n \<Longrightarrow> (2::rat) powi m < 2 powi n"
  by (rule power_int_strict_increasing) simp_all

lemma pow2_less_cancel: "(2::rat) powi m < 2 powi n \<Longrightarrow> m < n"
  using pow2_mono [of n m] by (cases "m < n") simp_all

lemma int_bitlen_bounds:
  assumes "0 < (a::int)"
  shows "(2::rat) powi (bitlen a - 1) \<le> of_int a" "of_int a + 1 \<le> (2::rat) powi (bitlen a)"
        "1 \<le> bitlen a"
proof -
  from bitlen_bounds [OF assms]
  have lo: "2 ^ nat (bitlen a - 1) \<le> a" and hi: "a < 2 ^ nat (bitlen a)" by simp_all
  show pos: "1 \<le> bitlen a"
    using assms bitlen_eq_zero_iff [of a] bitlen_nonneg [of a] by (cases "bitlen a = 0") auto
  have "(2::rat) powi (bitlen a - 1) = 2 ^ nat (bitlen a - 1)"
    using pos by (simp add: power_int_nonneg_exp)
  also have "\<dots> = of_int (2 ^ nat (bitlen a - 1))" by simp
  also have "\<dots> \<le> of_int a" using lo by (simp only: of_int_le_iff)
  finally show "(2::rat) powi (bitlen a - 1) \<le> of_int a" .
  have "a + 1 \<le> 2 ^ nat (bitlen a)" using hi by simp
  then have "(of_int (a + 1) :: rat) \<le> of_int (2 ^ nat (bitlen a))" by (simp only: of_int_le_iff)
  also have "\<dots> = (2::rat) powi (bitlen a)"
    using pos by (simp add: power_int_nonneg_exp)
  finally show "of_int a + 1 \<le> (2::rat) powi (bitlen a)" by simp
qed


lemma ilog2_rough:
  assumes "0 < (x::rat)"
  defines "k \<equiv> bitlen \<lfloor>x\<rfloor> - bitlen \<lfloor>1 / x\<rfloor>"
  shows "2 powi (k - 1) \<le> x" "x < 2 powi (k + 2)"
proof -
  have both: "2 powi (k - 1) \<le> x \<and> x < 2 powi (k + 2)"
  proof (cases "1 \<le> x")
    case True
    define a where "a = \<lfloor>x\<rfloor>"
    have a: "0 < a" using True by (simp add: a_def)
    have ax: "of_int a \<le> x" "x < of_int a + 1"
      using floor_correct [of x] by (simp_all add: a_def)
    have "0 \<le> 1 / x" "1 / x \<le> 1" using True assms(1) by simp_all
    then have "0 \<le> \<lfloor>1 / x\<rfloor>" "\<lfloor>1 / x\<rfloor> \<le> 1"
      by (simp_all add: floor_le_iff)
    then have "\<lfloor>1 / x\<rfloor> = 0 \<or> \<lfloor>1 / x\<rfloor> = 1"
      by linarith
    moreover have "bitlen 1 = 1" by (simp add: bitlen_alt_def)
    ultimately have b: "bitlen \<lfloor>1 / x\<rfloor> = 0 \<or> bitlen \<lfloor>1 / x\<rfloor> = 1"
      by auto
    have lo: "2 powi (bitlen a - 1) \<le> x"
      using int_bitlen_bounds(1) [OF a] ax(1) by simp
    have hi: "x < 2 powi (bitlen a)"
      using int_bitlen_bounds(2) [OF a] ax(2) by simp
    have k: "k = bitlen a \<or> k = bitlen a - 1"
      using b by (auto simp: k_def a_def)
    have "2 powi (k - 1) \<le> (2::rat) powi (bitlen a - 1)"
      using k by (intro pow2_mono) auto
    moreover have "(2::rat) powi (bitlen a) \<le> 2 powi (k + 2)"
      using k by (intro pow2_mono) auto
    ultimately show ?thesis using lo hi by simp
  next
    case False
    then have x1: "x < 1" by simp
    define y where "y = 1 / x"
    have y1: "1 < y" using x1 assms(1) by (simp add: y_def)
    define b where "b = \<lfloor>y\<rfloor>"
    have b: "0 < b" using y1 by (simp add: b_def)
    have byy: "of_int b \<le> y" "y < of_int b + 1"
      using floor_correct [of y] by (simp_all add: b_def)
    have fx: "\<lfloor>x\<rfloor> = 0" using x1 assms(1) by (simp add: floor_eq_iff)
    have k: "k = - bitlen b" by (simp add: k_def fx b_def y_def)
    have ylo: "2 powi (bitlen b - 1) \<le> y"
      using int_bitlen_bounds(1) [OF b] byy(1) by simp
    have yhi: "y < 2 powi (bitlen b)"
      using int_bitlen_bounds(2) [OF b] byy(2) by simp
    have xy: "x = 1 / y" using assms(1) by (simp add: y_def)
    have "1 / ((2::rat) powi (bitlen b)) < 1 / y"
      using yhi y1 by (intro divide_strict_left_mono) (simp_all add: pow2_pos)
    then have xlo: "2 powi k < x"
      by (simp add: xy k power_int_minus_divide)
    have "1 / y \<le> 1 / ((2::rat) powi (bitlen b - 1))"
      using ylo y1 by (intro divide_left_mono) (simp_all add: pow2_pos)
    then have xhi: "x \<le> 2 powi (k + 1)"
    proof -
      have "(2::rat) powi (k + 1) = 2 powi (- (bitlen b - 1))" by (simp add: k)
      also have "\<dots> = 1 / 2 powi (bitlen b - 1)" by (rule power_int_minus_divide)
      finally show ?thesis using \<open>1 / y \<le> 1 / ((2::rat) powi (bitlen b - 1))\<close> xy by simp
    qed
    have "(2::rat) powi (k - 1) \<le> 2 powi k" by (intro pow2_mono) simp
    moreover have "(2::rat) powi (k + 1) < 2 powi (k + 2)" by (intro pow2_strict) simp
    ultimately show ?thesis using xlo xhi by simp
  qed
  show "2 powi (k - 1) \<le> x" "x < 2 powi (k + 2)" using both by simp_all
qed

lemma ilog2_bounds:
  assumes "0 < (x::rat)"
  shows "2 powi (ilog2 x) \<le> x" "x < 2 powi (ilog2 x + 1)"
proof -
  define k where "k = bitlen \<lfloor>x\<rfloor> - bitlen \<lfloor>1 / x\<rfloor>"
  have r: "2 powi (k - 1) \<le> x" "x < 2 powi (k + 2)"
    using ilog2_rough [OF assms] by (simp_all add: k_def)
  have e: "ilog2 x = (if 2 powi (k + 1) \<le> x then k + 1 else if 2 powi k \<le> x then k else k - 1)"
    by (simp add: ilog2_def k_def Let_def)
  have "2 powi (ilog2 x) \<le> x \<and> x < 2 powi (ilog2 x + 1)"
  proof (cases "2 powi (k + 1) \<le> x")
    case True
    then show ?thesis using r(2) by (simp add: e add.commute)
  next
    case False
    note nf = False
    show ?thesis
    proof (cases "2 powi k \<le> x")
      case True
      then show ?thesis using nf by (simp add: e)
    next
      case False
      then show ?thesis using nf r(1) by (simp add: e)
    qed
  qed
  then show "2 powi (ilog2 x) \<le> x" "x < 2 powi (ilog2 x + 1)" by simp_all
qed


lemma round_half_even_error: "\<bar>of_int (round_half_even y) - y\<bar> \<le> 1 / 2"
proof -
  define f where "f = \<lfloor>y\<rfloor>"
  define d where "d = y - of_int f"
  have d: "0 \<le> d" "d < 1"
    using floor_correct [of y] by (simp_all add: d_def f_def)
  have y: "y = of_int f + d" by (simp add: d_def)
  have r: "round_half_even y =
             (if d < 1 / 2 then f else if d > 1 / 2 then f + 1 else if even f then f else f + 1)"
    by (simp add: round_half_even_def Let_def f_def d_def)
  show ?thesis
  proof (cases "d < 1 / 2")
    case True
    then have "round_half_even y = f" by (simp add: r)
    then have "of_int (round_half_even y) - y = - d" by (simp add: d_def)
    then show ?thesis using d True by simp
  next
    case False
    note ge = False
    show ?thesis
    proof (cases "d > 1 / 2")
      case True
      then have "round_half_even y = f + 1" using ge by (simp add: r)
      then have "of_int (round_half_even y) - y = 1 - d" by (simp add: d_def)
      then show ?thesis using d True by simp
    next
      case False
      with ge have h: "d = 1 / 2" by simp
      have "round_half_even y = f \<or> round_half_even y = f + 1" by (simp add: r)
      then have "of_int (round_half_even y) - y = - d \<or> of_int (round_half_even y) - y = 1 - d"
        by (auto simp: d_def)
      then show ?thesis using h by auto
    qed
  qed
qed

lemma round_half_even_nonneg: "0 \<le> y \<Longrightarrow> 0 \<le> round_half_even y"
proof -
  assume "0 \<le> y"
  then have "0 \<le> \<lfloor>y\<rfloor>" by simp
  then show ?thesis by (simp add: round_half_even_def Let_def)
qed

lemma to_binary64_nonneg: "0 \<le> x \<Longrightarrow> 0 \<le> to_binary64 x"
  by (simp add: to_binary64_def Let_def round_half_even_nonneg pow2_pos less_imp_le)

lemma to_binary64_error:
  assumes "0 < x"
  shows "\<bar>to_binary64 x - x\<bar> \<le> 2 powi (max (ilog2 x) (- 1022) - 53)"
proof -
  define e where "e = max (ilog2 x) (- 1022)"
  define q :: rat where "q = 2 powi (e - 52)"
  have q: "0 < q" by (simp add: q_def pow2_pos)
  have fl: "to_binary64 x = of_int (round_half_even (x / q)) * q"
    using assms by (simp add: to_binary64_def Let_def e_def q_def)
  have "to_binary64 x - x = (of_int (round_half_even (x / q)) - x / q) * q"
    using q by (simp add: fl algebra_simps)
  then have "\<bar>to_binary64 x - x\<bar> = \<bar>of_int (round_half_even (x / q)) - x / q\<bar> * q"
    using q by (simp add: abs_mult)
  also have "\<dots> \<le> 1 / 2 * q"
    using q round_half_even_error [of "x / q"] by (intro mult_right_mono) simp_all
  also have "\<dots> = 2 powi (e - 53)"
  proof -
    have "(2::rat) powi (e - 52) = 2 powi (e - 53 + 1)" by simp
    also have "\<dots> = 2 powi (e - 53) * 2" by (subst power_int_add) simp_all
    finally show ?thesis by (simp add: q_def)
  qed
  finally show ?thesis by (simp add: e_def)
qed

text \<open>In the normal range the error is relative.\<close>

lemma to_binary64_relative:
  assumes "2 powi (- 1022) \<le> x"
  shows "\<bar>to_binary64 x - x\<bar> \<le> x * 2 powi (- 53)"
proof -
  have x: "0 < x" using assms pow2_pos [of "- 1022"] by simp
  have "(2::rat) powi (- 1022) < 2 powi (ilog2 x + 1)"
    using assms ilog2_bounds(2) [OF x] by simp
  then have "- 1022 \<le> ilog2 x" using pow2_less_cancel by fastforce
  then have m: "max (ilog2 x) (- 1022) = ilog2 x" by simp
  have "(2::rat) powi (ilog2 x - 53) = 2 powi (ilog2 x) * 2 powi (- 53)"
    by (subst power_int_add [symmetric]) simp_all
  also have "\<dots> \<le> x * 2 powi (- 53)"
    using ilog2_bounds(1) [OF x] by (intro mult_right_mono) (simp_all add: pow2_pos less_imp_le)
  finally show ?thesis using to_binary64_error [OF x] by (simp add: m)
qed

text \<open>Below a power of two the error is bounded by that power.\<close>

lemma to_binary64_absolute:
  assumes "0 < x" "x < 2 powi m" "- 1021 \<le> m"
  shows "\<bar>to_binary64 x - x\<bar> \<le> 2 powi (m - 54)"
proof -
  have "(2::rat) powi (ilog2 x) < 2 powi m"
    using ilog2_bounds(1) [OF assms(1)] assms(2) by simp
  then have "ilog2 x < m" by (rule pow2_less_cancel)
  then have "max (ilog2 x) (- 1022) - 53 \<le> m - 54" using assms(3) by simp
  then have "(2::rat) powi (max (ilog2 x) (- 1022) - 53) \<le> 2 powi (m - 54)"
    by (rule pow2_mono)
  then show ?thesis using to_binary64_error [OF assms(1)] by simp
qed

lemma upt_10: "[0..<10] = [0, 1, 2, 3, 4, 5, 6, 7, 8, 9]"
  by code_simp

lemma tie_digits:
  "\<forall>r \<in> set [1, 2, 3, 4, 5, 6, 7, 8, 9, 10 :: nat]. \<forall>a \<in> set [0..<10]. \<forall>b \<in> set [0..<10].
     (2 * (10 * a + b) + 1) dvd 200 * r
       \<longrightarrow> 10 * a + b \<in> set [0, 1, 2, 3, 4, 7, 12, 17, 22, 37, 62, 87]"
  unfolding upt_10 by simp

lemma tie_divisors:
  fixes r k :: nat
  assumes "1 \<le> r" "r \<le> 10" "k < 100" "(2 * k + 1) dvd 200 * r"
  shows "k \<in> set [0, 1, 2, 3, 4, 7, 12, 17, 22, 37, 62, 87]"
proof -
  have r10: "r \<in> set [1, 2, 3, 4, 5, 6, 7, 8, 9, 10 :: nat]"
    using assms(1,2) by (simp del: One_nat_def) arith
  have a: "k div 10 \<in> set [0..<10]" using assms(3) by simp
  have b: "k mod 10 \<in> set [0..<10]" by simp
  have k: "10 * (k div 10) + k mod 10 = k" by simp
  from tie_digits r10 a b
  have "(2 * (10 * (k div 10) + k mod 10) + 1) dvd 200 * r
       \<longrightarrow> 10 * (k div 10) + k mod 10 \<in> set [0, 1, 2, 3, 4, 7, 12, 17, 22, 37, 62, 87]"
    by blast
  with assms(4) show ?thesis by (simp only: k)
qed

lemma tie_values:
  "\<forall>k \<in> set [0, 1, 2, 3, 4, 7, 12, 17, 22, 37, 62, 87 :: nat].
     Math_round (to_binary64 (to_binary64 (of_nat (2 * k + 1) / 200) * 100)) = int k + 1"
  by code_simp

text \<open>A tie: the percentage is a half-integer.\<close>

lemma rate_tie:
  fixes r d m :: nat
  assumes "1 \<le> r" "r \<le> 10" "r \<le> d" "200 * r + d = 2 * d * m"
  shows "Math_round (number_mul (number_div (of_nat r) (of_nat d)) 100)
           = round (of_nat r / of_nat d * 100 :: rat)"
proof -
  have d: "0 < d" using assms by simp
  have m: "1 \<le> m"
  proof (rule ccontr)
    assume "\<not> 1 \<le> m"
    then have "m = 0" by simp
    with assms(4) d show False by simp
  qed
  define k where "k = m - 1"
  have mk: "m = k + 1" using m by (simp add: k_def)
  have e: "200 * r = (2 * k + 1) * d"
    using assms(4) by (simp add: mk algebra_simps)
  have "200 * r \<le> 200 * d" using assms(3) by simp
  then have "(2 * k + 1) * d \<le> 200 * d" by (simp only: e)
  then have "2 * k + 1 \<le> 200" using d by (simp only: mult_le_cancel2)
  then have k100: "k < 100" by simp
  have "(2 * k + 1) dvd 200 * r" by (simp only: e dvd_triv_left)
  with assms(1,2) k100
  have kk: "k \<in> set [0, 1, 2, 3, 4, 7, 12, 17, 22, 37, 62, 87 :: nat]" by (rule tie_divisors)
  have x: "(of_nat r / of_nat d :: rat) = of_nat (2 * k + 1) / 200"
  proof -
    have "(of_nat (200 * r) :: rat) = of_nat ((2 * k + 1) * d)" by (simp only: e)
    then have "200 * (of_nat r :: rat) = of_nat (2 * k + 1) * of_nat d"
      by (simp add: algebra_simps)
    then show ?thesis using d by (simp add: field_simps)
  qed
  have "Math_round (number_mul (number_div (of_nat r) (of_nat d)) 100) = int k + 1"
    using tie_values kk unfolding number_mul_def number_div_def x by blast
  moreover have "round (of_nat r / of_nat d * 100 :: rat) = int k + 1"
  proof -
    have "(of_nat (2 * k + 1) / 200 * 100 :: rat) + 1 / 2 = of_int (int k + 1)"
      by (simp add: field_simps)
    then have "\<lfloor>(of_nat (2 * k + 1) / 200 * 100 :: rat) + 1 / 2\<rfloor> = int k + 1"
      by (simp only: floor_of_int)
    then show ?thesis by (simp only: round_def x)
  qed
  ultimately show ?thesis by simp
qed


text \<open>A denominator of at most \<open>2 ^ 43\<close>: the two roundings move the percentage by
  less than the distance between a half-integer and the next value with that
  denominator.\<close>

lemma rate_error:
  fixes r d :: nat
  assumes "1 \<le> r" "r \<le> d" "d \<le> 2 ^ 43"
  shows "\<bar>number_mul (number_div (of_nat r) (of_nat d)) 100 - 100 * (of_nat r / of_nat d)\<bar>
           < 1 / (2 * of_nat d)"
proof -
  define x :: rat where "x = of_nat r / of_nat d"
  define eps :: rat where "eps = 2 powi (- 53)"
  define y where "y = to_binary64 x"
  define z where "z = y * 100"
  define w where "w = to_binary64 z"
  define D :: rat where "D = of_nat d"
  have "(of_nat d :: rat) \<le> of_nat (2 ^ 43)" using assms(3) by (simp only: of_nat_le_iff)
  then have D43: "D \<le> 2 ^ 43" by (simp add: D_def)
  have "(of_nat 1 :: rat) \<le> of_nat d" using assms(1,2) by (simp only: of_nat_le_iff)
  then have D1: "1 \<le> D" by (simp add: D_def)
  have R: "1 \<le> (of_nat r :: rat)" "(of_nat r :: rat) \<le> D"
    using assms by (simp_all add: D_def)
  have eps: "0 < eps" "eps * 600 * 2 ^ 43 < 1" by (simp_all add: eps_def)
  have tiny: "(2::rat) powi (- 1022) \<le> 1 / 2 ^ 45"
  proof -
    have "(2::rat) powi (- 1022) \<le> 2 powi (- 45)" by (rule pow2_mono) simp
    then show ?thesis by simp
  qed
  have x_lo: "1 / 2 ^ 43 \<le> x"
  proof -
    have "1 / 2 ^ 43 \<le> 1 / D" using D1 D43 by (simp add: field_simps)
    also have "\<dots> \<le> of_nat r / D" using R D1 by (simp add: field_simps)
    finally show ?thesis by (simp add: x_def D_def)
  qed
  have x_hi: "x \<le> 1" using R D1 by (simp add: x_def D_def)
  have x_pos: "0 < x" using x_lo by (rule less_le_trans [rotated]) simp
  have x_norm: "2 powi (- 1022) \<le> x"
  proof -
    have "(1::rat) / 2 ^ 45 \<le> 1 / 2 ^ 43" by simp
    with tiny x_lo show ?thesis by linarith
  qed
  have ey: "\<bar>y - x\<bar> \<le> x * eps"
    unfolding y_def eps_def using x_norm by (rule to_binary64_relative)
  have eps_half: "eps \<le> 1 / 2" by (simp add: eps_def)
  have y_lo: "x / 2 \<le> y"
  proof -
    have "x * eps \<le> x * (1 / 2)" using eps_half x_pos by (intro mult_left_mono) simp_all
    then show ?thesis using ey by simp
  qed
  have y_hi: "y \<le> 2 * x"
  proof -
    have "x * eps \<le> x * 1" using eps_half x_pos by (intro mult_left_mono) simp_all
    then show ?thesis using ey by simp
  qed
  have z_lo: "2 powi (- 1022) \<le> z"
  proof -
    have "(1::rat) / 2 ^ 45 \<le> 50 * (1 / 2 ^ 43)" by simp
    also have "\<dots> \<le> 50 * x" using x_lo by (intro mult_left_mono) simp_all
    also have "\<dots> \<le> z" using y_lo by (simp add: z_def)
    finally show ?thesis using tiny by linarith
  qed
  have z_hi: "z \<le> 200 * x" using y_hi by (simp add: z_def)
  have "\<bar>w - z\<bar> \<le> z * eps"
    unfolding w_def eps_def using z_lo by (rule to_binary64_relative)
  also have "\<dots> \<le> 200 * x * eps"
    using z_hi eps(1) by (intro mult_right_mono) simp_all
  finally have ew: "\<bar>w - z\<bar> \<le> 200 * x * eps" .
  have ez: "\<bar>z - 100 * x\<bar> \<le> 100 * x * eps"
  proof -
    have "\<bar>z - 100 * x\<bar> = 100 * \<bar>y - x\<bar>" by (simp add: z_def abs_if)
    then show ?thesis using ey by simp
  qed
  have "\<bar>w - 100 * x\<bar> \<le> \<bar>w - z\<bar> + \<bar>z - 100 * x\<bar>" by simp
  also have "\<dots> \<le> 300 * x * eps" using ew ez by simp
  also have "\<dots> \<le> 300 * 1 * eps"
    using x_hi eps(1) by (intro mult_right_mono mult_left_mono) simp_all
  also have "\<dots> < 1 / (2 * D)"
  proof -
    have "eps * 600 * D \<le> eps * 600 * 2 ^ 43"
      using D43 eps(1) by (intro mult_left_mono) simp_all
    then have "eps * 600 * D < 1" using eps(2) by (rule le_less_trans)
    moreover have "300 * 1 * eps * (2 * D) = eps * 600 * D" by simp
    ultimately have "300 * 1 * eps * (2 * D) < 1" by (simp only:)
    moreover have "0 < 2 * D" using D1 by simp
    ultimately show ?thesis by (simp only: pos_less_divide_eq)
  qed
  finally show ?thesis
    by (simp add: number_mul_def number_div_def w_def z_def y_def x_def D_def)
qed

lemma rate_no_tie:
  fixes r d :: nat
  assumes "1 \<le> r" "r \<le> d" "d \<le> 2 ^ 43" "\<not> tie r d"
  shows "Math_round (number_mul (number_div (of_nat r) (of_nat d)) 100)
           = round (of_nat r / of_nat d * 100 :: rat)"
proof -
  define x :: rat where "x = of_nat r / of_nat d"
  define w where "w = number_mul (number_div (of_nat r) (of_nat d)) 100"
  define D :: rat where "D = of_nat d"
  have "(of_nat 1 :: rat) \<le> of_nat d" using assms(1,2) by (simp only: of_nat_le_iff)
  then have D: "1 \<le> D" by (simp add: D_def)
  have err: "\<bar>w - 100 * x\<bar> < 1 / (2 * D)"
    using rate_error [OF assms(1-3)] by (simp add: w_def x_def D_def)
  have xD: "x * D = of_nat r" using D by (simp add: x_def D_def)
  have x_pos: "0 \<le> x" by (simp add: x_def)
  define t where "t = 100 * x + 1 / 2"
  define n where "n = \<lfloor>t\<rfloor>"
  have nt: "of_int n \<le> t" "t < of_int n + 1"
    using floor_correct [of t] by (simp_all add: n_def)
  have tD: "t * (2 * D) = of_nat (200 * r + d)"
    using D xD by (simp add: t_def D_def algebra_simps)
  have t_pos: "0 \<le> t" using x_pos by (simp add: t_def)
  then have n_pos: "0 \<le> n" by (simp add: n_def)
  define M where "M = int (200 * r + d) - 2 * int d * n"
  have MD: "of_int M = (t - of_int n) * (2 * D)"
    using tD by (simp add: M_def D_def algebra_simps)
  have "0 \<le> (t - of_int n) * (2 * D)" using nt D by simp
  then have M0: "0 \<le> M" using MD by (metis of_int_0_le_iff)
  have "(t - of_int n) * (2 * D) < 1 * (2 * D)"
    using nt D by (intro mult_strict_right_mono) simp_all
  then have "(of_int M :: rat) < of_int (2 * int d)" using MD by (simp add: D_def)
  then have M2: "M < 2 * int d" by (simp only: of_int_less_iff)
  have "M \<noteq> 0"
  proof
    assume "M = 0"
    then have "int (200 * r + d) = int (2 * d * nat n)" using n_pos by (simp add: M_def)
    then have "200 * r + d = 2 * d * nat n" by (simp only: of_nat_eq_iff)
    then have "(2 * d) dvd (200 * r + d)" by simp
    with assms(4) show False by (simp add: tie_def)
  qed
  with M0 have M1: "1 \<le> M" by simp
  have frac_lo: "1 / (2 * D) \<le> t - of_int n"
  proof -
    have "(1::rat) \<le> of_int M" using M1 by simp
    then have "1 \<le> (t - of_int n) * (2 * D)" using MD by simp
    then show ?thesis using D by (simp add: field_simps)
  qed
  have frac_hi: "t - of_int n \<le> 1 - 1 / (2 * D)"
  proof -
    have "M \<le> 2 * int d - 1" using M2 by simp
    then have "(of_int M :: rat) \<le> of_int (2 * int d - 1)" by (simp only: of_int_le_iff)
    then have "(t - of_int n) * (2 * D) \<le> 2 * D - 1" using MD by (simp add: D_def)
    then show ?thesis using D by (simp add: field_simps)
  qed
  have "of_int n \<le> w + 1 / 2" "w + 1 / 2 < of_int n + 1"
    using err frac_lo frac_hi by (simp_all add: t_def abs_if split: if_splits)
  then have "\<lfloor>w + 1 / 2\<rfloor> = n" by (intro floor_unique) simp_all
  then have "Math_round (number_mul (number_div (of_nat r) (of_nat d)) 100) = n"
    by (simp add: Math_round_def w_def)
  moreover have "round (of_nat r / of_nat d * 100 :: rat) = n"
    by (simp add: round_def n_def t_def x_def mult.commute)
  ultimately show ?thesis by simp
qed

text \<open>At a tie the computed value is next to the half-integer, on either side.\<close>

lemma rate_at_tie:
  fixes r d :: nat
  assumes "1 \<le> r" "r \<le> d" "d \<le> 2 ^ 43" "tie r d"
  shows "Math_round (number_mul (number_div (of_nat r) (of_nat d)) 100)
           = round (of_nat r / of_nat d * 100 :: rat)
       \<or> Math_round (number_mul (number_div (of_nat r) (of_nat d)) 100)
           = round (of_nat r / of_nat d * 100 :: rat) - 1"
proof -
  define x :: rat where "x = of_nat r / of_nat d"
  define w where "w = number_mul (number_div (of_nat r) (of_nat d)) 100"
  define D :: rat where "D = of_nat d"
  have "(of_nat 1 :: rat) \<le> of_nat d" using assms(1,2) by (simp only: of_nat_le_iff)
  then have D: "1 \<le> D" by (simp add: D_def)
  have err: "\<bar>w - 100 * x\<bar> < 1 / (2 * D)"
    using rate_error [OF assms(1-3)] by (simp add: w_def x_def D_def)
  have half: "1 / (2 * D) \<le> 1 / 2" using D by (simp add: field_simps)
  have xD: "x * D = of_nat r" using D by (simp add: x_def D_def)
  define t where "t = 100 * x + 1 / 2"
  have tD: "t * (2 * D) = of_nat (200 * r + d)"
    using D xD by (simp add: t_def D_def algebra_simps)
  from assms(4) obtain m where m: "200 * r + d = 2 * d * m" by (auto simp: tie_def dvd_def)
  have "t * (2 * D) = of_nat m * (2 * D)"
    unfolding tD m by (simp add: D_def)
  then have tm: "t = of_int (int m)" using D by simp
  then have n: "\<lfloor>t\<rfloor> = int m" by (simp only: floor_of_int)
  have lo: "of_int (int m - 1) \<le> w + 1 / 2" and hi: "w + 1 / 2 < of_int (int m) + 1"
    using err half tm by (simp_all add: t_def abs_if split: if_splits)
  have exact: "round (of_nat r / of_nat d * 100 :: rat) = int m"
    using n by (simp add: round_def t_def x_def mult.commute)
  show ?thesis
  proof (cases "of_int (int m) \<le> w + 1 / 2")
    case True
    with hi have "\<lfloor>w + 1 / 2\<rfloor> = int m" by (intro floor_unique) simp_all
    then have "Math_round (number_mul (number_div (of_nat r) (of_nat d)) 100) = int m"
      by (simp add: Math_round_def w_def)
    then show ?thesis unfolding exact by (rule disjI1)
  next
    case False
    with lo have "\<lfloor>w + 1 / 2\<rfloor> = int m - 1" by (intro floor_unique) simp_all
    then have "Math_round (number_mul (number_div (of_nat r) (of_nat d)) 100) = int m - 1"
      by (simp add: Math_round_def w_def)
    then show ?thesis unfolding exact by (rule disjI2)
  qed
qed

text \<open>A denominator above 2000: the percentage and its computed value are below a half.\<close>

lemma rate_large:
  fixes r d :: nat
  assumes "r \<le> 10" "2000 < d"
  shows "Math_round (number_mul (number_div (of_nat r) (of_nat d)) 100)
           = round (of_nat r / of_nat d * 100 :: rat)"
proof -
  define x :: rat where "x = of_nat r / of_nat d"
  define y where "y = to_binary64 x"
  define z where "z = y * 100"
  define w where "w = to_binary64 z"
  define D :: rat where "D = of_nat d"
  have D: "2001 \<le> D"
  proof -
    have "2001 \<le> d" using assms(2) by simp
    then have "(of_nat 2001 :: rat) \<le> of_nat d" by (simp only: of_nat_le_iff)
    then show ?thesis by (simp add: D_def)
  qed
  have R: "0 \<le> (of_nat r :: rat)" "(of_nat r :: rat) \<le> 10" using assms by simp_all
  have x0: "0 \<le> x" using D R by (simp add: x_def D_def)
  have x_hi: "x \<le> 10 / 2001"
  proof -
    have "of_nat r / D \<le> 10 / D" using R D by (intro divide_right_mono) simp_all
    also have "\<dots> \<le> 10 / 2001" using D by (intro divide_left_mono) simp_all
    finally show ?thesis by (simp add: x_def D_def)
  qed
  have y0: "0 \<le> y" unfolding y_def using x0 by (rule to_binary64_nonneg)
  have y_hi: "y \<le> x + 2 powi (- 61)"
  proof (cases "x = 0")
    case True
    then show ?thesis by (simp add: y_def to_binary64_def)
  next
    case False
    then have "0 < x" using x0 by simp
    moreover have "x < 2 powi (- 7)" using x_hi by simp
    ultimately have "\<bar>to_binary64 x - x\<bar> \<le> 2 powi (- 7 - 54)"
      by (intro to_binary64_absolute) simp_all
    moreover have "(- 7 - 54 :: int) = - 61" by simp
    ultimately have "\<bar>to_binary64 x - x\<bar> \<le> 2 powi (- 61)" by (simp only:)
    then show ?thesis unfolding y_def by linarith
  qed
  have z0: "0 \<le> z" using y0 by (simp add: z_def)
  have z_hi: "z \<le> 1000 / 2001 + 100 * 2 powi (- 61)"
    using y_hi x_hi by (simp add: z_def)
  have w0: "0 \<le> w" unfolding w_def using z0 by (rule to_binary64_nonneg)
  have w_hi: "w \<le> z + 2 powi (- 55)"
  proof (cases "z = 0")
    case True
    then show ?thesis by (simp add: w_def to_binary64_def)
  next
    case False
    then have "0 < z" using z0 by simp
    moreover have "z < 2 powi (- 1)" using z_hi by simp
    ultimately have "\<bar>to_binary64 z - z\<bar> \<le> 2 powi (- 1 - 54)"
      by (intro to_binary64_absolute) simp_all
    moreover have "(- 1 - 54 :: int) = - 55" by simp
    ultimately have "\<bar>to_binary64 z - z\<bar> \<le> 2 powi (- 55)" by (simp only:)
    then show ?thesis unfolding w_def by linarith
  qed
  have "w < 1 / 2" using w_hi z_hi by simp
  then have "\<lfloor>w + 1 / 2\<rfloor> = 0" using w0 by (intro floor_unique) simp_all
  then have "Math_round (number_mul (number_div (of_nat r) (of_nat d)) 100) = 0"
    by (simp add: Math_round_def number_mul_def number_div_def w_def z_def y_def x_def)
  moreover have "\<lfloor>x * 100 + 1 / 2\<rfloor> = 0"
    using x0 x_hi by (intro floor_unique) simp_all
  then have "round (of_nat r / of_nat d * 100 :: rat) = 0"
    by (simp add: round_def x_def)
  ultimately show ?thesis by simp
qed

lemma rate_exact:
  fixes r d :: nat
  assumes "r \<le> 10" "r \<le> d" "0 < d"
  shows "Math_round (number_mul (number_div (of_nat r) (of_nat d)) 100)
           = round (of_nat r / of_nat d * 100 :: rat)"
proof (cases "r = 0")
  case True
  have "\<lfloor>(1::rat) / 2\<rfloor> = 0" by (rule floor_unique) simp_all
  with True show ?thesis
    by (simp add: Math_round_def number_mul_def number_div_def to_binary64_def)
next
  case False
  then have r1: "1 \<le> r" by simp
  show ?thesis
  proof (cases "2000 < d")
    case True
    then show ?thesis using assms(1) by (rule rate_large [rotated])
  next
    case False
    then have d: "d \<le> 2000" by simp
    show ?thesis
    proof (cases "(2 * d) dvd (200 * r + d)")
      case True
      then obtain m where "200 * r + d = 2 * d * m" by (auto simp: dvd_def)
      with r1 assms show ?thesis by (intro rate_tie) simp_all
    next
      case False
      have "d \<le> 2 ^ 43" using d by simp
      with r1 assms False show ?thesis by (intro rate_no_tie) (simp_all add: tie_def)
    qed
  qed
qed

section \<open>A run with attempts that run out of time\<close>

lemma slow_step:
  "handle_static hybrid_cheerio_handler slow_world r st
     = (if take 1 (req_url r) = ''a''
        then st\<lparr>stats := (stats st)\<lparr>seen := seen (stats st) + 1,
                                     http_ok := http_ok (stats st) + 1\<rparr>,
                hybrid_console := hybrid_console st @
                  [Cheerio_Extracted (req_url r) (Some ''Acme 100 kr'') (Some ''Acme 100 kr'')
                     (Some ''Acme 100 kr'')]\<rparr>
        else st\<lparr>stats := (stats st)\<lparr>seen := seen (stats st) + 1,
                                     fallback_enqueued := fallback_enqueued (stats st) + 1\<rparr>,
                hybrid_fallbackUrls :=
                  (if length (hybrid_fallbackUrls st) < 10
                   then hybrid_fallbackUrls st @ [req_url r] else hybrid_fallbackUrls st),
                hybrid_console := hybrid_console st @ [Cheerio_Missing (req_url r)]\<rparr>)"
  by (simp add: handle_static_def slow_world_def sample_world_def hybrid_cheerio_handler_def
                extractServiceTitle_def extractProvider_def extractPriceText_def
                probe_field_def first_text_def hasCriticalFields_def truthy_def try_catch_def
                static_page_def service_page_def trim_def isWhiteSpace_def test_digit_def Let_def)

lemma slow_world_key: "computeUniqueKey slow_world = (\<lambda>u. u)"
  by (simp add: slow_world_def sample_world_def)

lemma slow_initial:
  "hybrid_initial slow_world twenty_three_urls =
     \<lparr>hybrid_requestQueue =
        \<lparr>pending = map (\<lambda>u. \<lparr>req_url = u, uniqueKey = u, needsJs = None\<rparr>)
                     (accepted_urls @ deferred_urls),
         known_keys = accepted_urls @ deferred_urls\<rparr>,
      stats = \<lparr>seen = 0, http_ok = 0, fallback_enqueued = 0, js_processed = 0, js_rate = 0\<rparr>,
      hybrid_fallbackUrls = [], default_Dataset = [], hybrid_console = []\<rparr>"
  by (simp add: hybrid_initial_def twenty_three_urls_def accepted_urls_def deferred_urls_def
                addRequest_def seed_request_def slow_world_key)

lemma slow_fast_pass:
  "stats (hybrid_fast_pass slow_world twenty_three_urls)
     = \<lparr>seen = 23, http_ok = 17, fallback_enqueued = 6, js_processed = 0, js_rate = 0\<rparr>
   \<and> hybrid_fallbackUrls (hybrid_fast_pass slow_world twenty_three_urls) = deferred_urls
   \<and> hybrid_requestQueue (hybrid_fast_pass slow_world twenty_three_urls)
       = \<lparr>pending = [], known_keys = accepted_urls @ deferred_urls\<rparr>"
  unfolding hybrid_fast_pass_def slow_initial
  by (simp add: hybrid_cheerio_run_def take_batch_def hybrid_maxRequests_def slow_step
                twenty_three_urls_def accepted_urls_def deferred_urls_def)

lemma slow_attempts:
  assumes "needsJs r = Some True"
  shows "js_processed (stats (handle_rendered hybrid_playwright_handler slow_world r st))
           = js_processed (stats st) + (if req_url r = ''d6'' then 3 else 4)"
  using assms
  by (simp add: handle_rendered_def slow_world_def sample_world_def maxRequestRetries_def
                late_attempt_def hybrid_playwright_handler_def
                extractServiceTitle_def extractProvider_def extractPriceText_def
                probe_field_def first_text_def try_catch_def empty_rendered_page_def Let_def)

lemma slow_fold:
  assumes "\<forall>r \<in> set rs. needsJs r = Some True"
  shows "js_processed (stats (fold (handle_rendered hybrid_playwright_handler slow_world) rs st))
           = js_processed (stats st) + sum_list (map (\<lambda>r. if req_url r = ''d6'' then 3 else 4) rs)"
  using assms
proof (induction rs arbitrary: st)
  case Nil
  show ?case by simp
next
  case (Cons r rs)
  from Cons.prems have m: "needsJs r = Some True" and rest: "\<forall>r \<in> set rs. needsJs r = Some True"
    by simp_all
  show ?case
    using Cons.IH [OF rest, of "handle_rendered hybrid_playwright_handler slow_world r st"]
          slow_attempts [OF m, of st]
    by simp
qed

lemma rate_23_of_40: "Math_round (number_mul (number_div 23 40) 100) = 57"
  by code_simp

lemma slow_run:
  "http_ok (stats (hybrid_run slow_world twenty_three_urls)) = 17
   \<and> js_processed (stats (hybrid_run slow_world twenty_three_urls)) = 23
   \<and> js_rate (stats (hybrid_run slow_world twenty_three_urls)) = 57"
proof -
  define st1 where "st1 = validate_stats (hybrid_fast_pass slow_world twenty_three_urls)"
  define st2 where "st2 = hybrid_reenqueue st1"
  define st3 where "st3 = hybrid_playwright_run slow_world twenty_three_urls st2"
  have s1: "stats st1 = \<lparr>seen = 23, http_ok = 17, fallback_enqueued = 6, js_processed = 0, js_rate = 0\<rparr>"
    and l1: "hybrid_fallbackUrls st1 = deferred_urls"
    and q1: "hybrid_requestQueue st1 = \<lparr>pending = [], known_keys = accepted_urls @ deferred_urls\<rparr>"
    using slow_fast_pass by (simp_all add: st1_def validate_stats_def Let_def)
  have n: "length (hybrid_fallbackUrls st1) > 0" by (simp add: l1 deferred_urls_def)
  have run: "hybrid_run slow_world twenty_three_urls
               = st3\<lparr>stats := (stats st3)\<lparr>js_rate := compute_js_rate (stats st3)\<rparr>\<rparr>"
    unfolding hybrid_run_def Let_def st3_def st2_def st1_def [symmetric] using n by (simp only: if_True)
  have s2: "stats st2 = \<lparr>seen = 23, http_ok = 17, fallback_enqueued = 6, js_processed = 0, js_rate = 0\<rparr>"
    by (simp add: st2_def hybrid_reenqueue_def s1)
  have q2: "pending (hybrid_requestQueue st2) = map fallback_request deferred_urls"
    by (simp add: st2_def hybrid_reenqueue_def l1 q1 addRequest_def fallback_request_def
                  deferred_urls_def accepted_urls_def)
  define batch where "batch = take (hybrid_maxRequests twenty_three_urls) (pending (hybrid_requestQueue st2))"
  have b: "batch = map fallback_request deferred_urls"
    by (simp add: batch_def q2 hybrid_maxRequests_def twenty_three_urls_def deferred_urls_def)
  have st3: "st3 = fold (handle_rendered hybrid_playwright_handler slow_world) batch
                     (st2\<lparr>hybrid_requestQueue := (hybrid_requestQueue st2)
                        \<lparr>pending := drop (hybrid_maxRequests twenty_three_urls)
                                      (pending (hybrid_requestQueue st2))\<rparr>\<rparr>)"
    by (simp add: st3_def hybrid_playwright_run_def take_batch_def batch_def)
  have marked: "\<forall>r \<in> set batch. needsJs r = Some True"
    by (simp add: b fallback_request_def)
  have j3: "js_processed (stats st3) = 23"
    unfolding st3 slow_fold [OF marked]
    by (simp add: s2 b fallback_request_def deferred_urls_def)
  have h3: "http_ok (stats st3) = 17"
    unfolding st3 using hybrid_playwright_fold [of slow_world batch] by (simp add: s2)
  have "compute_js_rate (stats st3) = 57"
    using rate_23_of_40 by (simp add: compute_js_rate_def Let_def j3 h3)
  then show ?thesis by (simp add: run j3 h3)
qed

text \<open>
  C5, as the code has it. When both phases of a run are over, \<open>js_rate\<close> is 0 when
  \<open>http_ok + js_processed\<close> is 0, and otherwise \<open>Math.round\<close> of the binary64 value of
  \<open>js_processed / (http_ok + js_processed) * 100\<close>. That is the exact percentage
  rounded to the nearest integer, a half rounding up, when \<open>js_processed\<close> is at most
  10, and when the exact percentage is not a half-integer and the denominator is at
  most \<open>2 ^ 43\<close>. When the exact percentage is a half-integer it is that rounded value
  or one less. \<open>js_processed\<close> counts every attempt that calls the handler, so it is at
  most 40.
\<close>

theorem js_rate_rounded_in_binary64:
  "let s = stats (hybrid_run w config);
       r = js_processed s;
       d = http_ok s + js_processed s;
       exact = round (of_nat r / of_nat d * 100 :: rat)
   in (d = 0 \<longrightarrow> js_rate s = 0)
    \<and> (0 < d \<longrightarrow> js_rate s = Math_round (number_mul (number_div (of_nat r) (of_nat d)) 100))
    \<and> (0 < d \<and> r \<le> 10 \<longrightarrow> js_rate s = exact)
    \<and> (0 < d \<and> d \<le> 2 ^ 43 \<and> \<not> tie r d \<longrightarrow> js_rate s = exact)
    \<and> (0 < d \<and> d \<le> 2 ^ 43 \<and> tie r d \<longrightarrow> js_rate s = exact \<or> js_rate s = exact - 1)
    \<and> r \<le> 40"
proof -
  define st where "st = hybrid_playwright_run w config
     (let st1 = validate_stats (hybrid_fast_pass w config)
      in if length (hybrid_fallbackUrls st1) > 0 then hybrid_reenqueue st1 else st1)"
  define r where "r = js_processed (stats st)"
  define d where "d = http_ok (stats st) + js_processed (stats st)"
  define computed where "computed = Math_round (number_mul (number_div (of_nat r) (of_nat d)) 100)"
  define exact where "exact = round (of_nat r / of_nat d * 100 :: rat)"
  have run: "hybrid_run w config = st\<lparr>stats := (stats st)\<lparr>js_rate := compute_js_rate (stats st)\<rparr>\<rparr>"
    by (simp add: hybrid_run_def st_def Let_def)
  have rd: "r \<le> d" by (simp add: r_def d_def)
  have zero: "d = 0 \<longrightarrow> compute_js_rate (stats st) = 0"
    by (simp add: compute_js_rate_def Let_def d_def)
  have pos: "0 < d \<longrightarrow> compute_js_rate (stats st) = computed"
    by (simp add: compute_js_rate_def Let_def d_def r_def computed_def)
  have small: "0 < d \<and> r \<le> 10 \<longrightarrow> computed = exact"
    using rate_exact [of r d] rd by (simp add: computed_def exact_def)
  have r0: "r = 0 \<Longrightarrow> 0 < d \<Longrightarrow> computed = exact"
    using small by simp
  have no_tie: "0 < d \<and> d \<le> 2 ^ 43 \<and> \<not> tie r d \<longrightarrow> computed = exact"
  proof (cases "r = 0")
    case True
    then show ?thesis using r0 by simp
  next
    case False
    then have "1 \<le> r" by simp
    then show ?thesis using rate_no_tie [of r d] rd by (simp add: computed_def exact_def)
  qed
  have at_tie: "0 < d \<and> d \<le> 2 ^ 43 \<and> tie r d \<longrightarrow> computed = exact \<or> computed = exact - 1"
  proof (cases "r = 0")
    case True
    then show ?thesis using r0 by simp
  next
    case False
    then have "1 \<le> r" by simp
    then show ?thesis using rate_at_tie [of r d] rd by (simp add: computed_def exact_def)
  qed
  have bound: "r \<le> 40"
    using js_processed_le_40 [of w config] by (simp add: run r_def)
  have "(d = 0 \<longrightarrow> compute_js_rate (stats st) = 0)
    \<and> (0 < d \<longrightarrow> compute_js_rate (stats st) = computed)
    \<and> (0 < d \<and> r \<le> 10 \<longrightarrow> compute_js_rate (stats st) = exact)
    \<and> (0 < d \<and> d \<le> 2 ^ 43 \<and> \<not> tie r d \<longrightarrow> compute_js_rate (stats st) = exact)
    \<and> (0 < d \<and> d \<le> 2 ^ 43 \<and> tie r d
          \<longrightarrow> compute_js_rate (stats st) = exact \<or> compute_js_rate (stats st) = exact - 1)
    \<and> r \<le> 40"
    using zero pos small no_tie at_tie bound by auto
  then show ?thesis
    unfolding Let_def run
    by (simp add: r_def d_def computed_def exact_def)
qed

theorem js_rate_rounded_in_binary64_witness:
  "js_processed (stats (hybrid_run (sample_world (\<lambda>u. static_page [] [] []) (\<lambda>u. empty_rendered_page)) eleven_urls)) = 10
   \<and> http_ok (stats (hybrid_run (sample_world (\<lambda>u. static_page [] [] []) (\<lambda>u. empty_rendered_page)) eleven_urls)) = 0
   \<and> js_rate (stats (hybrid_run (sample_world (\<lambda>u. static_page [] [] []) (\<lambda>u. empty_rendered_page)) eleven_urls)) = 100
   \<and> tie 23 40
   \<and> js_rate (stats (hybrid_run slow_world twenty_three_urls)) = 57"
proof -
  let ?w = "sample_world (\<lambda>u. static_page [] [] []) (\<lambda>u. empty_rendered_page)"
  have n: "length (hybrid_fallbackUrls (validate_stats (hybrid_fast_pass ?w eleven_urls))) > 0"
    unfolding eleven_fast_pass by (simp add: validate_stats_def eleven_urls_def)
  have run: "hybrid_run ?w eleven_urls =
      (let st = hybrid_playwright_run ?w eleven_urls
                  (hybrid_reenqueue (validate_stats (hybrid_fast_pass ?w eleven_urls)))
       in st\<lparr>stats := (stats st)\<lparr>js_rate := compute_js_rate (stats st)\<rparr>\<rparr>)"
    unfolding hybrid_run_def Let_def using n by (simp only: if_True)
  have j: "js_processed (stats (hybrid_run ?w eleven_urls)) = 10"
    unfolding run eleven_reenqueue
    by (simp add: Let_def hybrid_playwright_run_def take_batch_def hybrid_maxRequests_def
                  render_step fallback_request_def eleven_urls_def)
  have h: "http_ok (stats (hybrid_run ?w eleven_urls)) = 0"
    unfolding run eleven_reenqueue
    by (simp add: Let_def hybrid_playwright_run_def take_batch_def hybrid_maxRequests_def
                  render_step fallback_request_def eleven_urls_def)
  from js_rate_rounded_in_binary64 [of ?w eleven_urls]
  have "js_rate (stats (hybrid_run ?w eleven_urls)) = 100"
    unfolding Let_def j h by simp
  moreover have "tie 23 40" by (simp add: tie_def)
  moreover have "js_rate (stats (hybrid_run slow_world twenty_three_urls)) = 57"
    using slow_run by simp
  ultimately show ?thesis using j h by simp
qed

text \<open>
  C5 as stated fails: in a run with 17 accepted URLs and 6 deferred ones, where the
  fallback handler is called 23 times because attempts run out of time, the exact
  percentage is 57.5 and rounds to 58, and \<open>js_rate\<close> is 57.
\<close>

theorem js_rate_of_23_in_40_is_57:
  "http_ok (stats (hybrid_run slow_world twenty_three_urls)) = 17
   \<and> js_processed (stats (hybrid_run slow_world twenty_three_urls)) = 23
   \<and> js_rate (stats (hybrid_run slow_world twenty_three_urls)) = 57
   \<and> round (of_nat 23 / of_nat (17 + 23) * 100 :: rat) = 58"
proof -
  have "(of_nat 23 / of_nat (17 + 23) * 100 :: rat) + 1 / 2 = of_int 58" by simp
  then have "\<lfloor>(of_nat 23 / of_nat (17 + 23) * 100 :: rat) + 1 / 2\<rfloor> = 58"
    by (simp only: floor_of_int)
  then have "round (of_nat 23 / of_nat (17 + 23) * 100 :: rat) = 58"
    by (simp only: round_def)
  with slow_run show ?thesis by simp
qed

section \<open>Routing of deferred URLs\<close>






lemma harvester_catch_defers:
  assumes "http_fetch w r = Some (c, response)" "root_html c = Inr h"
    and "build_static_doc rt (Date_toISOString w r) (req_url r) h c response = Inl e"
  shows "handle_static (harvester_cheerio_handler rt) w r st
           = st\<lparr>console := console st @ [HTTP_Error (req_url r) e],
                 fallbackUrls := fallbackUrls st @ [req_url r]\<rparr>"
  by (simp add: handle_static_def harvester_cheerio_handler_def assms try_catch_def Let_def)












lemma harvester_run_after_defer:
  assumes "u \<in> set (fallbackUrls (harvester_fast_pass rt w config))"
  shows "harvester_run rt w config
           = harvester_playwright_run rt w config (harvester_reenqueue (harvester_fast_pass rt w config))"
proof -
  have "0 < length (fallbackUrls (harvester_fast_pass rt w config))"
    using assms by (cases "fallbackUrls (harvester_fast_pass rt w config)") simp_all
  then show ?thesis by (simp add: harvester_run_def Let_def harvester_reenqueue_def)
qed









section \<open>Sample documents\<close>

lemmas sample_eval =
  sample_runtime_def sample_URL_new_def example_com_def static_page_def empty_rendered_page_def
  acme_markup_def
  extractMetadata_def or_else_def or_undefined_def truthy_def trim_def isWhiteSpace_def
  Object_assign_def initial_doc_def response_status_def response_content_type_def
  main_text_static_def main_text_rendered_def extractMainTextWithReadability_def
  extractLargestTextBlocks_def mainSelectors_def push_block_def slice0_def
  extractAllText_def truncate_str_def normalizeWhitespace_def
  extractHeadings_def heading_texts_cheerio_def heading_texts_playwright_def new_Set_def Set_add_def
  extractJsonLd_def extractSchemaTypes_def extractLinks_def extractDomain_def try_catch_def
  links_result_def calculateDomStats_def count_words_def
  set_contacts_def extractEmails_def extractPhones_def
  extractEvidence_def findPriceLike_def evidence_keywords_def indexOf_def
  sha256_def or_empty_def Let_def

lemma empty_page_static:
  "build_static_doc sample_runtime ''2025-01-01T00:00:00.000Z'' ''https://example.com/'' []
     (static_page [] [] []) None = Inr (empty_doc http)"
  by (simp add: build_static_doc_def empty_doc_def sample_eval)

lemma empty_page_rendered:
  "build_rendered_doc sample_runtime now ''https://example.com/'' empty_rendered_page None
     = Inl (Exn ''TimeoutError'')"
  by (simp add: build_rendered_doc_def empty_rendered_page_def extractMetadata_def or_else_def
                truthy_def)


lemma acme_page_static:
  "build_static_doc sample_runtime now ''https://example.com/'' acme_markup acme_page None
     = Inr (acme_doc now)"
  by (simp add: build_static_doc_def acme_doc_def acme_page_def ldjson_selector_def sample_eval)

section \<open>From the fast path to the fallback\<close>






section \<open>The render fallback\<close>

text \<open>The run of the content harvester on one start URL whose static page has no title
  and an empty body, stage by stage.\<close>

lemma scenario_fast_pass:
  "harvester_fast_pass sample_runtime (sample_world (\<lambda>u. static_page [] [] []) rendered)
       one_start_url
     = \<lparr>requestQueue = \<lparr>pending = [], known_keys = [''https://example.com/'']\<rparr>,
        dataset = [], fallbackUrls = [''https://example.com/''], console = []\<rparr>"
  using empty_page_static
  by (simp add: harvester_fast_pass_def harvester_cheerio_run_def harvester_initial_def
                harvester_maxRequests_def one_start_url_def take_batch_def addRequest_def
                seed_request_def sample_world_def handle_static_def harvester_cheerio_handler_def
                static_page_def try_catch_def empty_doc_def truthy_def)

lemma scenario_reenqueue:
  "harvester_reenqueue (harvester_fast_pass sample_runtime
       (sample_world (\<lambda>u. static_page [] [] []) rendered) one_start_url)
     = \<lparr>requestQueue = \<lparr>pending = [fallback_request ''https://example.com/''],
                          known_keys = [''https://example.com/'',
                                        ''https://example.com/#js-fallback'']\<rparr>,
        dataset = [], fallbackUrls = [''https://example.com/''], console = []\<rparr>"
  unfolding scenario_fast_pass
  by (simp add: harvester_reenqueue_def addRequest_def fallback_request_def)

lemma scenario_run:
  "harvester_run sample_runtime (sample_world (\<lambda>u. static_page [] [] []) rendered) one_start_url
     = harvester_playwright_run sample_runtime
         (sample_world (\<lambda>u. static_page [] [] []) rendered) one_start_url
         (harvester_reenqueue (harvester_fast_pass sample_runtime
            (sample_world (\<lambda>u. static_page [] [] []) rendered) one_start_url))"
  by (rule harvester_run_after_defer [of "''https://example.com/''"])
     (simp add: scenario_fast_pass)

text \<open>
  C4: the claim is that the fallback pipeline always persists a document for a request
  with the marker. The content harvester reads the description and the canonical link of
  the rendered page, and the \<open>og:title\<close> when the title is empty, through locators that
  wait for the element: when the element is not there the read throws, the \<open>catch\<close> of
  the handler logs the error and nothing is persisted. Here the run has one start URL;
  its static page has no title and an empty body, so the fast path defers it, and its
  rendered page has no title and no such elements either: the URL is re-enqueued with
  the marker, the fallback handler is called, and the dataset of the run is empty.
\<close>

theorem rendered_page_without_metadata_is_not_persisted:
  "harvester_run sample_runtime
       (sample_world (\<lambda>u. static_page [] [] []) (\<lambda>u. empty_rendered_page)) one_start_url
     = \<lparr>requestQueue = \<lparr>pending = [],
                          known_keys = [''https://example.com/'',
                                        ''https://example.com/#js-fallback'']\<rparr>,
        dataset = [],
        fallbackUrls = [''https://example.com/''],
        console = [JS_Error ''https://example.com/'' (Exn ''TimeoutError'')]\<rparr>"
  unfolding scenario_run scenario_reenqueue
  by (simp add: harvester_playwright_run_def take_batch_def harvester_maxRequests_def
                one_start_url_def handle_rendered_def maxRequestRetries_def sample_world_def
                fallback_request_def harvester_playwright_handler_def empty_page_rendered
                try_catch_def Let_def)

section \<open>Idempotence of the static extraction\<close>

lemma main_text_static_at:
  "main_text_static rt c h u (d\<lparr>fetched_at := t\<rparr>)
     = map_sum id (\<lambda>x. x\<lparr>fetched_at := t\<rparr>) (main_text_static rt c h u d)"
  by (simp add: main_text_static_def Let_def bindE_def split: sum.splits)

lemma initial_doc_at:
  "Object_assign (initial_doc u t2 response mode) md
     = (Object_assign (initial_doc u t1 response mode) md)\<lparr>fetched_at := t2\<rparr>"
  by (simp add: Object_assign_def initial_doc_def)

lemma main_text_static_stamp:
  "main_text_static rt c h u d0 = Inr d \<Longrightarrow> fetched_at d = fetched_at d0"
  by (auto simp: main_text_static_def Let_def bindE_Inr_iff split: if_splits)

lemma set_contacts_stamp: "fetched_at (set_contacts rt s d) = fetched_at d"
  by (simp add: set_contacts_def Let_def)

lemma build_static_doc_at:
  "build_static_doc rt t2 u h c response
     = map_sum id (\<lambda>x. x\<lparr>fetched_at := t2\<rparr>) (build_static_doc rt t1 u h c response)"
  unfolding build_static_doc_def initial_doc_at [of u t2 response http _ t1] main_text_static_at
  by (auto simp add: bindE_def set_contacts_def Let_def split: sum.splits)

lemma build_static_doc_hash:
  assumes "build_static_doc rt now u h c response = Inr d"
  shows "\<exists>b. sel_html c ''body'' = Inr b
           \<and> html_hash d = createHash_sha256_hex rt (case b of None \<Rightarrow> [] | Some markup \<Rightarrow> markup)"
  using assms by (auto simp: build_static_doc_def bindE_Inr_iff sha256_def or_empty_def)

lemma build_static_doc_stamp:
  assumes "build_static_doc rt now u h c response = Inr d"
  shows "fetched_at d = now"
proof -
  from assms obtain md d1 where
    m: "main_text_static rt c h u (Object_assign (initial_doc u now response http) md) = Inr d1"
    and "fetched_at d = fetched_at d1"
    by (auto simp: build_static_doc_def bindE_Inr_iff set_contacts_stamp)
  moreover from main_text_static_stamp [OF m] have "fetched_at d1 = now"
    by (simp add: Object_assign_def initial_doc_def)
  ultimately show ?thesis by simp
qed

text \<open>
  C7: the static extraction is run twice on the same markup, for the same URL, at the
  clock readings \<open>t1\<close> and \<open>t2\<close>. When the first run returns a document, its
  \<open>fetched_at\<close> is \<open>t1\<close>, the second run returns the same document with only
  \<open>fetched_at\<close> changed, to \<open>t2\<close>, so the fingerprints are equal; and the fingerprint
  is what the SHA-256 digest of the runtime returns for the markup of \<open>body\<close>, or for the
  empty string when there is none. When the first run throws, the second throws the
  same.
\<close>

theorem extraction_idempotent:
  "(\<forall>d1. build_static_doc rt t1 u h c response = Inr d1
      \<longrightarrow> build_static_doc rt t2 u h c response = Inr (d1\<lparr>fetched_at := t2\<rparr>)
          \<and> fetched_at d1 = t1
          \<and> html_hash (d1\<lparr>fetched_at := t2\<rparr>) = html_hash d1
          \<and> (\<exists>b. sel_html c ''body'' = Inr b
                \<and> html_hash d1
                    = createHash_sha256_hex rt (case b of None \<Rightarrow> [] | Some markup \<Rightarrow> markup)))
   \<and> (\<forall>e. build_static_doc rt t1 u h c response = Inl e
      \<longrightarrow> build_static_doc rt t2 u h c response = Inl e)"
proof (intro conjI allI impI)
  fix d1
  assume a: "build_static_doc rt t1 u h c response = Inr d1"
  show "build_static_doc rt t2 u h c response = Inr (d1\<lparr>fetched_at := t2\<rparr>)"
    using build_static_doc_at [of rt t2 u h c response t1] by (simp add: a)
  show "fetched_at d1 = t1" using a by (rule build_static_doc_stamp)
  show "html_hash (d1\<lparr>fetched_at := t2\<rparr>) = html_hash d1" by simp
  show "\<exists>b. sel_html c ''body'' = Inr b
          \<and> html_hash d1
              = createHash_sha256_hex rt (case b of None \<Rightarrow> [] | Some markup \<Rightarrow> markup)"
    using a by (rule build_static_doc_hash)
next
  fix e
  assume a: "build_static_doc rt t1 u h c response = Inl e"
  show "build_static_doc rt t2 u h c response = Inl e"
    using build_static_doc_at [of rt t2 u h c response t1] by (simp add: a)
qed

theorem extraction_idempotent_witness:
  "build_static_doc sample_runtime ''2025-01-01T00:00:00.000Z'' ''https://example.com/''
       acme_markup acme_page None = Inr (acme_doc ''2025-01-01T00:00:00.000Z'')
   \<and> build_static_doc sample_runtime ''2025-06-30T12:00:00.000Z'' ''https://example.com/''
       acme_markup acme_page None
       = Inr ((acme_doc ''2025-01-01T00:00:00.000Z'')\<lparr>fetched_at := ''2025-06-30T12:00:00.000Z''\<rparr>)
   \<and> sel_html acme_page ''body'' = Inr (Some ''<p>Acme  AB</p>'')
   \<and> html_hash (acme_doc ''2025-01-01T00:00:00.000Z'')
       = createHash_sha256_hex sample_runtime ''<p>Acme  AB</p>''
   \<and> createHash_sha256_hex sample_runtime ''<p>Acme  AB</p>''
       = ''c27eb57f0cb107836b79d32b5c735ea23ea89828d93d7cb4205637a11d50ca58''
   \<and> createHash_sha256_hex sample_runtime []
       = ''e3b0c44298fc1c149afbf4c8996fb92427ae41e4649b934ca495991b7852b855''"
proof -
  have a: "build_static_doc sample_runtime ''2025-01-01T00:00:00.000Z'' ''https://example.com/''
       acme_markup acme_page None = Inr (acme_doc ''2025-01-01T00:00:00.000Z'')"
    by (rule acme_page_static)
  have b: "sel_html acme_page ''body'' = Inr (Some ''<p>Acme  AB</p>'')"
    by (simp add: acme_page_def static_page_def)
  from extraction_idempotent [of sample_runtime "''2025-01-01T00:00:00.000Z''"
         "''https://example.com/''" acme_markup acme_page None "''2025-06-30T12:00:00.000Z''"] a
  have "build_static_doc sample_runtime ''2025-06-30T12:00:00.000Z'' ''https://example.com/''
       acme_markup acme_page None
       = Inr ((acme_doc ''2025-01-01T00:00:00.000Z'')\<lparr>fetched_at := ''2025-06-30T12:00:00.000Z''\<rparr>)"
    and "\<exists>b. sel_html acme_page ''body'' = Inr b
           \<and> html_hash (acme_doc ''2025-01-01T00:00:00.000Z'')
               = createHash_sha256_hex sample_runtime (case b of None \<Rightarrow> [] | Some markup \<Rightarrow> markup)"
    by blast+
  moreover have "createHash_sha256_hex sample_runtime ''<p>Acme  AB</p>''
       = ''c27eb57f0cb107836b79d32b5c735ea23ea89828d93d7cb4205637a11d50ca58''"
    and "createHash_sha256_hex sample_runtime []
       = ''e3b0c44298fc1c149afbf4c8996fb92427ae41e4649b934ca495991b7852b855''"
    by (simp_all add: sample_runtime_def sha256_of_acme_body_def sha256_of_empty_def)
  ultimately show ?thesis using a b by auto
qed

end
